theory Spec2Isabelle
  imports Complex_Main "HOL-Library.Word"
begin

unbundle bit_operations_syntax

section \<open>Data model\<close>

text \<open>
  The arena of \<^verbatim>\<open>arena.go\<close> in its list-recomputing variant (the current chunk is
  always the last element of \<^verbatim>\<open>a.chunks\<close>), with \<^verbatim>\<open>metrics.go\<close> and the typed layer
  of \<^verbatim>\<open>alloc.go\<close>; the variant with the cached \<^verbatim>\<open>currentChunk\<close> pointer follows in a section
  of its own. The platform is a 64-bit one: Go's \<^verbatim>\<open>int\<close> and \<^verbatim>\<open>uintptr\<close> are 64-bit
  words (\<open>+\<close> wraps; \<open><s\<close> and \<open>\<le>s\<close> compare as two's complement, \<open><\<close> and \<open>\<le>\<close> as
  unsigned) and \<^verbatim>\<open>unsafe.Sizeof(uintptr(0))\<close> is 8. The length of a Go slice always
  fits an \<^verbatim>\<open>int\<close>; \<^verbatim>\<open>len(a.chunks)\<close> and indices into \<^verbatim>\<open>a.chunks\<close> are kept as
  unbounded \<open>int\<close>.
\<close>

type_synonym byte = "8 word"
type_synonym go_int = "64 word"
type_synonym uintptr = "64 word"

text \<open>Every \<^verbatim>\<open>panic\<close> of the source and of the Go runtime is a value.\<close>

datatype panic =
    UseAfterRelease         \<comment> \<open>\<^verbatim>\<open>panic("arena: use after Release()")\<close>\<close>
  | AllocationFailure       \<comment> \<open>\<^verbatim>\<open>make([]byte, size)\<close> cannot be satisfied\<close>
  | IndexOutOfRange         \<comment> \<open>runtime error: index out of range\<close>
  | SliceBoundsOutOfRange   \<comment> \<open>runtime error: slice bounds out of range\<close>

record chunk =
  buf :: "byte list"
  offset :: uintptr

text \<open>\<open>chunks = None\<close> is the nil slice, which is what \<^verbatim>\<open>a.chunks == nil\<close> tests.\<close>

record Arena =
  chunks :: "chunk list option"
  chunkSize :: go_int

text \<open>
  A \<^verbatim>\<open>[]byte\<close> returned by the arena aliases the buffer of one chunk: it is the chunk's
  index with the start and the length of the view. The nil slice is \<open>None\<close>.
\<close>

record region =
  r_chunk :: nat
  r_start :: nat
  r_len :: nat

definition DefaultChunkSize :: go_int where
  "DefaultChunkSize = push_bit 16 1"

section \<open>The host allocator\<close>

text \<open>
  \<^verbatim>\<open>make([]byte, size)\<close> is the Go runtime's: it panics for a negative length and for
  one above the largest allocation the runtime supports (\<open>2 ^ 48\<close> bytes on 64-bit
  Linux), and otherwise returns \<open>size\<close> zero bytes. Both failures are
  \<open>AllocationFailure\<close> here.
\<close>

definition maxAlloc :: nat where
  "maxAlloc = 2 ^ 48"

definition make_bytes :: "go_int \<Rightarrow> panic + byte list" where
  "make_bytes sz =
     (if sz <s 0 \<or> maxAlloc < unat sz then Inl AllocationFailure
      else Inr (replicate (unat sz) 0))"

section \<open>Arena core\<close>

text \<open>\<^verbatim>\<open>append(a.chunks, c)\<close>: appending to the nil slice gives a one-element slice.\<close>

definition append_chunk :: "chunk list option \<Rightarrow> chunk \<Rightarrow> chunk list" where
  "append_chunk s c = (case s of None \<Rightarrow> [c] | Some cs \<Rightarrow> cs @ [c])"

definition grow :: "Arena \<Rightarrow> go_int \<Rightarrow> panic + Arena" where
  "grow a min_bytes =
     (let sz = chunkSize a;
          sz = (if sz <s min_bytes then min_bytes else sz)
      in case make_bytes sz of
           Inl e \<Rightarrow> Inl e
         | Inr b \<Rightarrow> Inr (a\<lparr>chunks := Some (append_chunk (chunks a) \<lparr>buf = b, offset = 0\<rparr>)\<rparr>))"

definition panicIfReleased :: "Arena \<Rightarrow> panic + unit" where
  "panicIfReleased a = (if chunks a = None then Inl UseAfterRelease else Inr ())"

definition alignPtr :: "uintptr \<Rightarrow> uintptr" where
  "alignPtr off = (let align = 8; mask = align - 1 in (off + mask) AND NOT mask)"

definition NewArena :: "go_int \<Rightarrow> panic + Arena" where
  "NewArena cs0 =
     (let cs = (if cs0 \<le>s 0 then DefaultChunkSize else cs0);
          a = \<lparr>chunks = None, chunkSize = cs\<rparr>
      in grow a cs)"

text \<open>\<^verbatim>\<open>len(a.chunks)\<close>; the nil slice has length 0.\<close>

definition len_chunks :: "Arena \<Rightarrow> int" where
  "len_chunks a = (case chunks a of None \<Rightarrow> 0 | Some cs \<Rightarrow> int (length cs))"

definition the_chunks :: "Arena \<Rightarrow> chunk list" where
  "the_chunks a = (case chunks a of None \<Rightarrow> [] | Some cs \<Rightarrow> cs)"

text \<open>
  The tail of \<^verbatim>\<open>AllocBytes\<close> from \<^verbatim>\<open>start := int(off)\<close> on, for the chunk at index
  \<open>ci\<close>: the new offset is stored, then \<^verbatim>\<open>c.buf[start:end]\<close> checks
  \<open>0 \<le> start \<le> end \<le> cap(c.buf)\<close>. A call that panics returns no arena.
\<close>

definition carve :: "Arena \<Rightarrow> nat \<Rightarrow> uintptr \<Rightarrow> go_int \<Rightarrow> panic + (region option \<times> Arena)" where
  "carve a ci off n =
     (let cs = the_chunks a;
          c = cs ! ci;
          start = off;
          end' = start + n;
          a' = a\<lparr>chunks := Some (cs[ci := c\<lparr>offset := end'\<rparr>])\<rparr>
      in if 0 \<le>s start \<and> start \<le>s end' \<and> sint end' \<le> int (length (buf c))
         then Inr (Some \<lparr>r_chunk = ci, r_start = unat start, r_len = unat end' - unat start\<rparr>, a')
         else Inl SliceBoundsOutOfRange)"

definition AllocBytes :: "Arena \<Rightarrow> go_int \<Rightarrow> panic + (region option \<times> Arena)" where
  "AllocBytes a n =
     (if n \<le>s 0 then Inr (None, a)
      else case panicIfReleased a of
        Inl e \<Rightarrow> Inl e
      | Inr _ \<Rightarrow>
         (case (if len_chunks a - 1 < 0 then grow a n else Inr a) of
            Inl e \<Rightarrow> Inl e
          | Inr a1 \<Rightarrow>
             (let ci = nat (len_chunks a1 - 1);
                  c = the_chunks a1 ! ci;
                  off = alignPtr (offset c)
              in if n + off > of_nat (length (buf c))
                 then (case grow a1 n of
                         Inl e \<Rightarrow> Inl e
                       | Inr a2 \<Rightarrow>
                          (let ci = nat (len_chunks a2 - 1);
                               c = the_chunks a2 ! ci;
                               off = alignPtr (offset c)
                           in carve a2 ci off n))
                 else carve a1 ci off n)))"

definition EnsureCapacity :: "Arena \<Rightarrow> go_int \<Rightarrow> panic + Arena" where
  "EnsureCapacity a n =
     (case panicIfReleased a of
        Inl e \<Rightarrow> Inl e
      | Inr _ \<Rightarrow>
         (let ci = len_chunks a - 1
          in if ci < 0 then grow a n
             else (let c = the_chunks a ! nat ci;
                       off = alignPtr (offset c)
                   in if n + off > of_nat (length (buf c)) then grow a n else Inr a)))"

definition Reset :: "Arena \<Rightarrow> panic + Arena" where
  "Reset a =
     (case panicIfReleased a of
        Inl e \<Rightarrow> Inl e
      | Inr _ \<Rightarrow> Inr (a\<lparr>chunks := Some (map (\<lambda>c. c\<lparr>offset := 0\<rparr>) (the_chunks a))\<rparr>))"

definition Release :: "Arena \<Rightarrow> Arena" where
  "Release a = a\<lparr>chunks := None\<rparr>"

section \<open>Metrics\<close>

definition SizeInUse :: "Arena \<Rightarrow> go_int" where
  "SizeInUse a =
     (case chunks a of None \<Rightarrow> 0 | Some cs \<Rightarrow> foldl (\<lambda>sum c. sum + offset c) 0 cs)"

definition NumChunks :: "Arena \<Rightarrow> int" where
  "NumChunks a = (case chunks a of None \<Rightarrow> 0 | Some cs \<Rightarrow> int (length cs))"

definition Capacity :: "Arena \<Rightarrow> go_int" where
  "Capacity a =
     (case chunks a of None \<Rightarrow> 0
      | Some cs \<Rightarrow> foldl (\<lambda>sum c. sum + of_nat (length (buf c))) 0 cs)"

text \<open>
  \<^verbatim>\<open>Utilization\<close> returns a \<^verbatim>\<open>float64\<close>. The quotient is taken in the reals here, so
  the rounding of the division is not modelled; the branch for no capacity returns
  the constant 0 and involves no arithmetic.
\<close>

definition Utilization :: "Arena \<Rightarrow> real" where
  "Utilization a =
     (let capacity = Capacity a
      in if capacity = 0 then 0
         else real_of_int (sint (SizeInUse a)) / real_of_int (sint capacity))"

definition ChunkSize :: "Arena \<Rightarrow> go_int" where
  "ChunkSize a = chunkSize a"

section \<open>Typed allocation layer\<close>

text \<open>\<^verbatim>\<open>len(b)\<close> of a returned \<^verbatim>\<open>[]byte\<close>; the nil slice has length 0.\<close>

definition len_region :: "region option \<Rightarrow> nat" where
  "len_region b = (case b of None \<Rightarrow> 0 | Some r \<Rightarrow> r_len r)"

text \<open>
  \<^verbatim>\<open>clear(b)\<close> writes through the view into the chunk's buffer: the bytes of the chunk at
  the positions of the view become 0, the others stay.
\<close>

definition clear_bytes :: "byte list \<Rightarrow> nat \<Rightarrow> nat \<Rightarrow> byte list" where
  "clear_bytes xs s l = map (\<lambda>i. if s \<le> i \<and> i < s + l then 0 else xs ! i) [0..<length xs]"

definition clear :: "region option \<Rightarrow> Arena \<Rightarrow> Arena" where
  "clear b a =
     (case b of
        None \<Rightarrow> a
      | Some r \<Rightarrow>
          a\<lparr>chunks :=
              map_option
                (\<lambda>cs. cs[r_chunk r := (cs ! r_chunk r)\<lparr>buf :=
                          clear_bytes (buf (cs ! r_chunk r)) (r_start r) (r_len r)\<rparr>])
                (chunks a)\<rparr>)"

text \<open>
  \<^verbatim>\<open>(*T)(unsafe.Pointer(&b[0]))\<close>: indexing element 0 panics on a slice of length 0 (the
  nil slice included). The pointer is the chunk's index and the offset in its buffer.
\<close>

definition elem0 :: "region option \<Rightarrow> panic + (nat \<times> nat)" where
  "elem0 b =
     (case b of
        None \<Rightarrow> Inl IndexOutOfRange
      | Some r \<Rightarrow> if r_len r = 0 then Inl IndexOutOfRange else Inr (r_chunk r, r_start r))"

text \<open>
  The type parameter \<^verbatim>\<open>T\<close> enters the generic functions only through
  \<^verbatim>\<open>int(unsafe.Sizeof(zero))\<close>, which is the argument \<open>sizeof_T\<close> here.
\<close>

definition Alloc :: "Arena \<Rightarrow> go_int \<Rightarrow> panic + ((nat \<times> nat) \<times> Arena)" where
  "Alloc a sizeof_T =
     (case AllocBytes a sizeof_T of
        Inl e \<Rightarrow> Inl e
      | Inr (b, a1) \<Rightarrow>
          (let a2 = (if len_region b > 0 then clear b a1 else a1)
           in case elem0 b of Inl e \<Rightarrow> Inl e | Inr p \<Rightarrow> Inr (p, a2)))"

definition AllocZeroed :: "Arena \<Rightarrow> go_int \<Rightarrow> panic + ((nat \<times> nat) \<times> Arena)" where
  "AllocZeroed a sizeof_T = Alloc a sizeof_T"

definition AllocUninitialized :: "Arena \<Rightarrow> go_int \<Rightarrow> panic + ((nat \<times> nat) \<times> Arena)" where
  "AllocUninitialized a sizeof_T =
     (case AllocBytes a sizeof_T of
        Inl e \<Rightarrow> Inl e
      | Inr (b, a1) \<Rightarrow> (case elem0 b of Inl e \<Rightarrow> Inl e | Inr p \<Rightarrow> Inr (p, a1)))"

text \<open>Reading \<open>n\<close> bytes through a pointer into the arena.\<close>

definition read_bytes :: "Arena \<Rightarrow> nat \<times> nat \<Rightarrow> nat \<Rightarrow> byte list" where
  "read_bytes a p n = take n (drop (snd p) (buf (the_chunks a ! fst p)))"

section \<open>The variant with a cached current chunk\<close>

text \<open>
  The other version of \<^verbatim>\<open>arena.go\<close> keeps a pointer \<^verbatim>\<open>currentChunk\<close> into \<^verbatim>\<open>a.chunks\<close>.
  Every assignment to it takes the address of an element of the slice as it is at that
  moment, and every \<^verbatim>\<open>append\<close> is followed by such an assignment, so the pointer is the
  index of the element; \<open>None\<close> is the nil pointer.
\<close>

record CachedArena = Arena +
  currentChunk :: "nat option"

definition grow_cached :: "CachedArena \<Rightarrow> go_int \<Rightarrow> panic + CachedArena" where
  "grow_cached a min_bytes =
     (let sz = chunkSize a;
          sz = (if sz <s min_bytes then min_bytes else sz)
      in case make_bytes sz of
           Inl e \<Rightarrow> Inl e
         | Inr b \<Rightarrow>
             (let cs = append_chunk (chunks a) \<lparr>buf = b, offset = 0\<rparr>
              in Inr (a\<lparr>chunks := Some cs, currentChunk := Some (length cs - 1)\<rparr>)))"

definition NewArena_cached :: "go_int \<Rightarrow> panic + CachedArena" where
  "NewArena_cached cs0 =
     (let cs = (if cs0 \<le>s 0 then DefaultChunkSize else cs0);
          a = \<lparr>chunks = None, chunkSize = cs, currentChunk = None\<rparr>
      in case grow_cached a cs of
           Inl e \<Rightarrow> Inl e
         | Inr a1 \<Rightarrow>
             (case chunks a1 of
                None \<Rightarrow> Inr a1
              | Some cs1 \<Rightarrow>
                  if length cs1 > 0 then Inr (a1\<lparr>currentChunk := Some (length cs1 - 1)\<rparr>)
                  else Inr a1))"

text \<open>
  The common tail of the fast and the slow path: the offset is stored, \<^verbatim>\<open>&c.buf[start]\<close>
  checks the index, and \<^verbatim>\<open>unsafe.Slice\<close> makes a view of \<open>n\<close> bytes from there.
\<close>

definition carve_cached ::
    "CachedArena \<Rightarrow> nat \<Rightarrow> uintptr \<Rightarrow> go_int \<Rightarrow> panic + (region option \<times> CachedArena)" where
  "carve_cached a ci off n =
     (case chunks a of
        None \<Rightarrow> Inl IndexOutOfRange
      | Some cs \<Rightarrow>
          (let c = cs ! ci;
               start = off;
               a' = a\<lparr>chunks := Some (cs[ci := c\<lparr>offset := off + n\<rparr>])\<rparr>
           in if 0 \<le>s start \<and> sint start < int (length (buf c))
              then Inr (Some \<lparr>r_chunk = ci, r_start = unat start, r_len = unat n\<rparr>, a')
              else Inl IndexOutOfRange))"

definition allocBytesSlow :: "CachedArena \<Rightarrow> go_int \<Rightarrow> panic + (region option \<times> CachedArena)" where
  "allocBytesSlow a n =
     (if chunks a = None then Inl UseAfterRelease
      else case grow_cached a n of
             Inl e \<Rightarrow> Inl e
           | Inr a1 \<Rightarrow>
               (case chunks a1 of
                  None \<Rightarrow> Inl IndexOutOfRange
                | Some cs \<Rightarrow>
                    (let ci = length cs - 1;
                         a2 = a1\<lparr>currentChunk := Some ci\<rparr>;
                         off = alignPtr (offset (cs ! ci))
                     in carve_cached a2 ci off n)))"

definition AllocBytes_cached :: "CachedArena \<Rightarrow> go_int \<Rightarrow> panic + (region option \<times> CachedArena)" where
  "AllocBytes_cached a n =
     (if n \<le>s 0 then Inr (None, a)
      else case (currentChunk a, chunks a) of
             (Some ci, Some cs) \<Rightarrow>
               (let off = alignPtr (offset (cs ! ci))
                in if off + n \<le> of_nat (length (buf (cs ! ci)))
                   then carve_cached a ci off n
                   else allocBytesSlow a n)
           | _ \<Rightarrow> allocBytesSlow a n)"

definition Reset_cached :: "CachedArena \<Rightarrow> panic + CachedArena" where
  "Reset_cached a =
     (case chunks a of
        None \<Rightarrow> Inl UseAfterRelease
      | Some cs \<Rightarrow>
          (let a1 = a\<lparr>chunks := Some (map (\<lambda>c. c\<lparr>offset := 0\<rparr>) cs)\<rparr>
           in if length cs > 0 then Inr (a1\<lparr>currentChunk := Some 0\<rparr>) else Inr a1))"

section \<open>The earlier draft of the constructor\<close>

text \<open>
  \<^verbatim>\<open>src/arena.go\<close> holds an earlier draft of the file: the struct \<^verbatim>\<open>Chunk\<close> with the fields
  \<^verbatim>\<open>buffer\<close> and \<^verbatim>\<open>offset\<close>, \<^verbatim>\<open>NewArena\<close> and \<^verbatim>\<open>grow\<close> only, and the constant
  \<^verbatim>\<open>defaultChunkSize = 1024 * 1024\<close>. Its \<^verbatim>\<open>grow\<close> is the one above up to the names.
  \<^verbatim>\<open>metrics.go\<close>, the typed layer and the tests are written against the later file (they
  use \<^verbatim>\<open>c.buf\<close> and \<^verbatim>\<open>DefaultChunkSize\<close>).
\<close>

definition defaultChunkSize :: go_int where
  "defaultChunkSize = 1024 * 1024"

definition NewArena_draft :: "go_int \<Rightarrow> panic + Arena" where
  "NewArena_draft cs0 =
     (let cs = (if cs0 \<le>s 0 then defaultChunkSize else cs0);
          a = \<lparr>chunks = None, chunkSize = cs\<rparr>
      in grow a cs)"

section \<open>Sequences of calls\<close>

text \<open>
  A client drives an arena through the mutating calls. A call that panics ends the run;
  \<open>exec\<close> starts from \<^verbatim>\<open>NewArena\<close>.
\<close>

datatype call = CallAllocBytes go_int | CallEnsureCapacity go_int | CallReset

fun step :: "Arena \<Rightarrow> call \<Rightarrow> panic + Arena" where
  "step a (CallAllocBytes n) = (case AllocBytes a n of Inl e \<Rightarrow> Inl e | Inr (b, a') \<Rightarrow> Inr a')"
| "step a (CallEnsureCapacity n) = EnsureCapacity a n"
| "step a CallReset = Reset a"

fun run :: "Arena \<Rightarrow> call list \<Rightarrow> panic + Arena" where
  "run a [] = Inr a"
| "run a (c # cs) = (case step a c of Inl e \<Rightarrow> Inl e | Inr a' \<Rightarrow> run a' cs)"

definition exec :: "go_int \<Rightarrow> call list \<Rightarrow> panic + Arena" where
  "exec cs0 calls = (case NewArena cs0 of Inl e \<Rightarrow> Inl e | Inr a \<Rightarrow> run a calls)"

section \<open>Invariant\<close>

text \<open>
  A chunk is well formed when its offset is within its buffer and the buffer is one the
  allocator can have returned; an arena is well formed when it is not released, has a
  chunk, all its chunks are well formed and its chunk size is positive and within the
  allocator's limit.
\<close>

definition chunk_ok :: "chunk \<Rightarrow> bool" where
  "chunk_ok c \<longleftrightarrow> unat (offset c) \<le> length (buf c) \<and> length (buf c) \<le> maxAlloc"

definition arena_ok :: "Arena \<Rightarrow> bool" where
  "arena_ok a \<longleftrightarrow>
     chunks a \<noteq> None \<and> the_chunks a \<noteq> [] \<and> list_all chunk_ok (the_chunks a) \<and>
     0 <s chunkSize a \<and> unat (chunkSize a) \<le> maxAlloc"

text \<open>The size of the chunk that \<open>grow a n\<close> asks for.\<close>

definition grow_size :: "Arena \<Rightarrow> go_int \<Rightarrow> go_int" where
  "grow_size a n = (if chunkSize a <s n then n else chunkSize a)"

text \<open>The chunk size that \<open>NewArena\<close> settles on.\<close>

definition resolved_size :: "go_int \<Rightarrow> go_int" where
  "resolved_size cs0 = (if cs0 \<le>s 0 then DefaultChunkSize else cs0)"

section \<open>Alignment and the two readings of a word\<close>

lemma and_minus_8: "(x::64 word) AND - 8 = push_bit 3 (drop_bit 3 x)"
proof -
  have "(- 8::64 word) = NOT (mask 3)" by (simp add: mask_eq_exp_minus_1)
  moreover have "x AND NOT (mask 3) = push_bit 3 (drop_bit 3 x)"
    by (rule bit_eqI) (auto simp add: bit_simps)
  ultimately show ?thesis by simp
qed

lemma unat_and_minus_8: "unat ((x::64 word) AND - 8) = unat x div 8 * 8"
proof -
  have "unat (drop_bit 3 x) = unat x div 8"
    by (simp add: drop_bit_eq_div unat_div)
  moreover have "unat x div 8 * 8 < 2 ^ 64"
    using unsigned_less [of x, where 'a = nat] by simp
  moreover have "unat (drop_bit 3 x * 8) = (unat (drop_bit 3 x) * 8) mod 2 ^ 64"
    by (simp add: unat_word_ariths)
  ultimately show ?thesis
    by (simp add: and_minus_8 push_bit_eq_mult)
qed

lemma alignPtr_unat:
  assumes "unat off \<le> 2 ^ 64 - 8"
  shows "unat (alignPtr off) = (unat off + 7) div 8 * 8"
proof -
  have "unat (off + 7) = unat off + 7"
    using assms by (simp add: unat_word_ariths)
  then show ?thesis
    by (simp add: alignPtr_def unat_and_minus_8)
qed

lemma alignPtr_mod8: "unat (alignPtr off) mod 8 = 0"
  by (simp add: alignPtr_def unat_and_minus_8)

lemma alignPtr_0: "alignPtr 0 = 0"
  by (simp add: alignPtr_def)

lemma alignPtr_bounds:
  assumes "unat off \<le> maxAlloc"
  shows "unat off \<le> unat (alignPtr off)" and "unat (alignPtr off) < unat off + 8"
  using assms by (simp_all add: alignPtr_unat maxAlloc_def) 

text \<open>Signed and unsigned readings agree below \<open>2 ^ 63\<close>.\<close>

lemma sint_eq_unat:
  fixes w :: "64 word"
  assumes "unat w < 2 ^ 63"
  shows "sint w = int (unat w)"
proof -
  have "int (unat w) < int (2 ^ 63)" using assms by (simp only: of_nat_less_iff)
  then have "uint w < 2 ^ 63" by simp
  moreover have "- (2 ^ 63) \<le> uint w"
    by (rule order_trans [of _ 0]) simp_all
  ultimately have "signed_take_bit 63 (uint w) = uint w"
    by (intro signed_take_bit_int_eq_self)
  then show ?thesis by (simp add: sint_uint)
qed

lemma unat_eq_sint:
  fixes w :: "64 word"
  assumes "0 \<le> sint w"
  shows "int (unat w) = sint w"
proof -
  have "sint w < 2 ^ 64" using sint_lt [of w] by simp
  then have "take_bit 64 (sint w) = sint w"
    using assms by (simp add: take_bit_int_eq_self)
  then show ?thesis using uint_sint [of w] by simp
qed

lemma pos_signed:
  fixes n :: "64 word"
  assumes "0 <s n"
  shows "0 < unat n" and "unat n < 2 ^ 63"
proof -
  have p: "0 < sint n" using assms by (simp add: word_sless_alt)
  then have e: "int (unat n) = sint n" by (intro unat_eq_sint) simp
  show "0 < unat n" using p e by linarith
  have "sint n < 2 ^ 63" using sint_lt [of n] by simp
  then have "int (unat n) < int (2 ^ 63)" using e by simp
  then show "unat n < 2 ^ 63" by (simp only: of_nat_less_iff)
qed

section \<open>What \<open>AllocBytes\<close> computes on a well-formed arena\<close>

lemma make_bytes_ok:
  assumes "unat sz \<le> maxAlloc"
  shows "make_bytes sz = Inr (replicate (unat sz) 0)"
proof -
  have "unat sz < 2 ^ 63" using assms by (simp add: maxAlloc_def)
  then have "sint sz = int (unat sz)" by (rule sint_eq_unat)
  then have "\<not> sz <s 0" by (simp add: word_sless_alt)
  then show ?thesis using assms by (simp add: make_bytes_def)
qed

lemma grow_ok:
  assumes "chunks a = Some cs" and "unat (grow_size a n) \<le> maxAlloc"
  shows "grow a n = Inr (a\<lparr>chunks := Some (cs @ [\<lparr>buf = replicate (unat (grow_size a n)) 0, offset = 0\<rparr>])\<rparr>)"
  using assms make_bytes_ok [of "grow_size a n"]
  by (simp add: grow_def grow_size_def append_chunk_def Let_def)

lemma grow_size_max:
  assumes "0 <s chunkSize a" and "0 <s n"
  shows "unat (grow_size a n) = max (unat (chunkSize a)) (unat n)"
proof -
  have "sint (chunkSize a) = int (unat (chunkSize a))" "sint n = int (unat n)"
    using assms pos_signed by (simp_all add: sint_eq_unat)
  then show ?thesis
    by (simp add: grow_size_def word_sless_alt max_def del: of_nat_unat) 
qed

lemma carve_ok:
  assumes "chunks a = Some cs" and "ci < length cs"
    and "unat off + unat n \<le> length (buf (cs ! ci))"
    and "length (buf (cs ! ci)) \<le> maxAlloc"
  shows "carve a ci off n =
           Inr (Some \<lparr>r_chunk = ci, r_start = unat off, r_len = unat n\<rparr>,
                a\<lparr>chunks := Some (cs[ci := (cs ! ci)\<lparr>offset := off + n\<rparr>])\<rparr>)"
proof -
  have b: "unat off + unat n \<le> 2 ^ 48" using assms by (simp add: maxAlloc_def)
  then have s: "unat (off + n) = unat off + unat n"
    by (simp add: unat_word_ariths)
  have "unat off < 2 ^ 63" "unat (off + n) < 2 ^ 63" using b s by simp_all
  then have "sint off = int (unat off)" "sint (off + n) = int (unat (off + n))"
    by (simp_all only: sint_eq_unat)
  then have "0 \<le>s off" "off \<le>s off + n" "sint (off + n) \<le> int (length (buf (cs ! ci)))"
    using s assms(3) by (simp_all add: word_sle_eq del: of_nat_unat)
  then show ?thesis
    using assms(1) s by (simp add: carve_def the_chunks_def Let_def)
qed


text \<open>The test \<^verbatim>\<open>uintptr(n)+off > uintptr(len(c.buf))\<close> does not wrap on a well-formed chunk.\<close>

lemma fit_test:
  fixes n off :: "64 word"
  assumes "unat n < 2 ^ 63" and "unat off < 2 ^ 63" and "L \<le> maxAlloc"
  shows "(n + off > of_nat L) \<longleftrightarrow> L < unat n + unat off"
proof -
  have "unat (n + off) = unat n + unat off"
    using assms by (simp add: unat_word_ariths)
  moreover have "unat (of_nat L :: 64 word) = L"
    using assms by (simp add: unat_of_nat maxAlloc_def)
  ultimately show ?thesis by (simp add: word_less_nat_alt)
qed

lemma last_chunk_index:
  assumes "chunks a = Some cs" and "cs \<noteq> []"
  shows "the_chunks a ! nat (len_chunks a - 1) = last cs"
    and "nat (len_chunks a - 1) = length cs - 1"
    and "\<not> len_chunks a - 1 < 0"
  using assms by (simp_all add: the_chunks_def len_chunks_def last_conv_nth nat_diff_distrib')

lemma aligned_offset_small:
  assumes "chunk_ok c"
  shows "unat (alignPtr (offset c)) < 2 ^ 63"
proof -
  have "unat (offset c) \<le> maxAlloc" using assms by (simp add: chunk_ok_def)
  then have "unat (alignPtr (offset c)) < unat (offset c) + 8" "unat (offset c) \<le> 2 ^ 48"
    by (simp_all add: alignPtr_bounds maxAlloc_def)
  then show ?thesis by simp
qed

lemma AllocBytes_fit:
  assumes ok: "arena_ok a" and cs: "chunks a = Some cs" and n: "0 <s n"
    and fit: "unat n + unat (alignPtr (offset (last cs))) \<le> length (buf (last cs))"
  shows "AllocBytes a n =
           Inr (Some \<lparr>r_chunk = length cs - 1, r_start = unat (alignPtr (offset (last cs))),
                      r_len = unat n\<rparr>,
                a\<lparr>chunks := Some (cs[length cs - 1 :=
                        (last cs)\<lparr>offset := alignPtr (offset (last cs)) + n\<rparr>])\<rparr>)"
proof -
  have ne: "cs \<noteq> []" and all: "list_all chunk_ok cs"
    using ok cs by (simp_all add: arena_ok_def the_chunks_def)
  then have lok: "chunk_ok (last cs)" by (simp add: list_all_iff)
  have n1: "\<not> n \<le>s 0" using n by (simp add: word_sless_alt word_sle_eq)
  have n63: "unat n < 2 ^ 63" using n by (rule pos_signed)
  have t: "\<not> n + alignPtr (offset (last cs)) > of_nat (length (buf (last cs)))"
    using fit_test [OF n63 aligned_offset_small [OF lok], of "length (buf (last cs))"] lok fit
    by (simp add: chunk_ok_def)
  have c: "carve a (length cs - 1) (alignPtr (offset (last cs))) n =
           Inr (Some \<lparr>r_chunk = length cs - 1, r_start = unat (alignPtr (offset (last cs))),
                      r_len = unat n\<rparr>,
                a\<lparr>chunks := Some (cs[length cs - 1 :=
                        (last cs)\<lparr>offset := alignPtr (offset (last cs)) + n\<rparr>])\<rparr>)"
    using carve_ok [OF cs, of "length cs - 1" "alignPtr (offset (last cs))" n] ne lok fit
    by (simp add: last_conv_nth chunk_ok_def add.commute)
  show ?thesis
    using n1 t c cs last_chunk_index [OF cs ne]
    by (simp add: AllocBytes_def panicIfReleased_def Let_def)
qed

lemma AllocBytes_grow:
  assumes ok: "arena_ok a" and cs: "chunks a = Some cs" and n: "0 <s n"
    and lim: "unat n \<le> maxAlloc"
    and nofit: "length (buf (last cs)) < unat n + unat (alignPtr (offset (last cs)))"
  shows "AllocBytes a n =
           Inr (Some \<lparr>r_chunk = length cs, r_start = 0, r_len = unat n\<rparr>,
                a\<lparr>chunks := Some (cs @
                  [\<lparr>buf = replicate (max (unat (chunkSize a)) (unat n)) 0, offset = n\<rparr>])\<rparr>)"
proof -
  have ne: "cs \<noteq> []" and all: "list_all chunk_ok cs"
    and cpos: "0 <s chunkSize a" and clim: "unat (chunkSize a) \<le> maxAlloc"
    using ok cs by (simp_all add: arena_ok_def the_chunks_def)
  then have lok: "chunk_ok (last cs)" by (simp add: list_all_iff)
  have n1: "\<not> n \<le>s 0" using n by (simp add: word_sless_alt word_sle_eq)
  have n63: "unat n < 2 ^ 63" using n by (rule pos_signed)
  have t: "n + alignPtr (offset (last cs)) > of_nat (length (buf (last cs)))"
    using fit_test [OF n63 aligned_offset_small [OF lok], of "length (buf (last cs))"] lok nofit
    by (simp add: chunk_ok_def)
  have gs: "unat (grow_size a n) = max (unat (chunkSize a)) (unat n)"
    using cpos n by (rule grow_size_max)
  define c' where "c' = \<lparr>buf = replicate (max (unat (chunkSize a)) (unat n)) (0::byte), offset = 0\<rparr>"
  define a2 where "a2 = a\<lparr>chunks := Some (cs @ [c'])\<rparr>"
  have g: "grow a n = Inr a2"
    using grow_ok [OF cs, of n] gs lim clim by (simp add: a2_def c'_def)
  have cs2: "chunks a2 = Some (cs @ [c'])" by (simp add: a2_def)
  have c: "carve a2 (length cs) (alignPtr 0) n =
           Inr (Some \<lparr>r_chunk = length cs, r_start = 0, r_len = unat n\<rparr>,
                a2\<lparr>chunks := Some ((cs @ [c'])[length cs := c'\<lparr>offset := n\<rparr>])\<rparr>)"
    using carve_ok [OF cs2, of "length cs" 0 n] lim clim
    by (simp add: alignPtr_0 c'_def)
  have i2: "the_chunks a2 ! nat (len_chunks a2 - 1) = c'" "nat (len_chunks a2 - 1) = length cs"
    using last_chunk_index [OF cs2] by simp_all
  show ?thesis
    using n1 t g c cs i2 last_chunk_index [OF cs ne]
    by (simp add: AllocBytes_def panicIfReleased_def Let_def a2_def c'_def)
qed

lemma AllocBytes_too_large:
  assumes ok: "arena_ok a" and n: "0 <s n" and big: "maxAlloc < unat n"
  shows "AllocBytes a n = Inl AllocationFailure"
proof -
  obtain cs where cs: "chunks a = Some cs" using ok by (auto simp add: arena_ok_def)
  have ne: "cs \<noteq> []" and all: "list_all chunk_ok cs"
    and cpos: "0 <s chunkSize a" and clim: "unat (chunkSize a) \<le> maxAlloc"
    using ok cs by (simp_all add: arena_ok_def the_chunks_def)
  then have lok: "chunk_ok (last cs)" by (simp add: list_all_iff)
  have n1: "\<not> n \<le>s 0" using n by (simp add: word_sless_alt word_sle_eq)
  have n63: "unat n < 2 ^ 63" using n by (rule pos_signed)
  have t: "n + alignPtr (offset (last cs)) > of_nat (length (buf (last cs)))"
    using fit_test [OF n63 aligned_offset_small [OF lok], of "length (buf (last cs))"] lok big
    by (simp add: chunk_ok_def)
  have "unat (grow_size a n) = max (unat (chunkSize a)) (unat n)"
    using cpos n by (rule grow_size_max)
  then have "maxAlloc < unat (grow_size a n)" using big by simp
  then have "make_bytes (grow_size a n) = Inl AllocationFailure"
    by (simp add: make_bytes_def)
  then have g: "grow a n = Inl AllocationFailure"
    by (simp add: grow_def grow_size_def Let_def)
  show ?thesis
    using n1 t g cs last_chunk_index [OF cs ne]
    by (simp add: AllocBytes_def panicIfReleased_def Let_def)
qed

section \<open>The invariant is kept by every call\<close>

lemma grow_preserves:
  assumes "arena_ok a" and "grow a n = Inr a'"
  shows "arena_ok a'"
proof -
  obtain cs where cs: "chunks a = Some cs" using assms(1) by (auto simp add: arena_ok_def)
  obtain b where b: "make_bytes (grow_size a n) = Inr b"
    and a': "a' = a\<lparr>chunks := Some (cs @ [\<lparr>buf = b, offset = 0\<rparr>])\<rparr>"
    using assms(2) cs
    by (auto simp add: grow_def grow_size_def Let_def append_chunk_def split: sum.splits if_splits)
  have "length b \<le> maxAlloc"
    using b by (auto simp add: make_bytes_def split: if_splits)
  then have "chunk_ok \<lparr>buf = b, offset = 0\<rparr>" by (simp add: chunk_ok_def)
  then show ?thesis
    using assms(1) cs by (simp add: a' arena_ok_def the_chunks_def)
qed

lemma AllocBytes_preserves:
  assumes ok: "arena_ok a" and r: "AllocBytes a n = Inr (b, a')"
  shows "arena_ok a'"
proof (cases "0 <s n")
  case False
  then have "n \<le>s 0" by (simp add: word_sless_alt word_sle_eq)
  then show ?thesis using ok r by (simp add: AllocBytes_def)
next
  case n: True
  obtain cs where cs: "chunks a = Some cs" using ok by (auto simp add: arena_ok_def)
  have ne: "cs \<noteq> []" and all: "list_all chunk_ok cs"
    and cpos: "0 <s chunkSize a" and clim: "unat (chunkSize a) \<le> maxAlloc"
    using ok cs by (simp_all add: arena_ok_def the_chunks_def)
  then have lok: "chunk_ok (last cs)" by (simp add: list_all_iff)
  show ?thesis
  proof (cases "unat n + unat (alignPtr (offset (last cs))) \<le> length (buf (last cs))")
    case fit: True
    have "unat (alignPtr (offset (last cs)) + n) = unat (alignPtr (offset (last cs))) + unat n"
      using fit lok by (simp add: unat_word_ariths chunk_ok_def maxAlloc_def)
    then have "chunk_ok ((last cs)\<lparr>offset := alignPtr (offset (last cs)) + n\<rparr>)"
      using fit lok by (simp add: chunk_ok_def)
    then have "list_all chunk_ok (cs[length cs - 1 := (last cs)\<lparr>offset := alignPtr (offset (last cs)) + n\<rparr>])"
      using all by (auto simp add: list_all_iff dest: set_update_subset_insert [THEN subsetD])
    then show ?thesis
      using AllocBytes_fit [OF ok cs n fit] r ok ne
      by (auto simp add: arena_ok_def the_chunks_def)
  next
    case nofit: False
    show ?thesis
    proof (cases "unat n \<le> maxAlloc")
      case True
      have "chunk_ok \<lparr>buf = replicate (max (unat (chunkSize a)) (unat n)) 0, offset = n\<rparr>"
        using True clim by (simp add: chunk_ok_def)
      then show ?thesis
        using AllocBytes_grow [OF ok cs n True] nofit r ok all
        by (auto simp add: arena_ok_def the_chunks_def)
    next
      case False
      then show ?thesis using AllocBytes_too_large [OF ok n] r by simp
    qed
  qed
qed

lemma EnsureCapacity_preserves:
  assumes ok: "arena_ok a" and r: "EnsureCapacity a n = Inr a'"
  shows "arena_ok a'"
proof -
  have "a' = a \<or> grow a n = Inr a'"
    using r by (auto simp add: EnsureCapacity_def Let_def split: sum.splits if_splits)
  then show ?thesis using ok grow_preserves by blast
qed

lemma Reset_preserves:
  assumes ok: "arena_ok a" and r: "Reset a = Inr a'"
  shows "arena_ok a'"
proof -
  have a': "a' = a\<lparr>chunks := Some (map (\<lambda>c. c\<lparr>offset := 0\<rparr>) (the_chunks a))\<rparr>"
    using r by (auto simp add: Reset_def split: sum.splits)
  have "list_all chunk_ok (map (\<lambda>c. c\<lparr>offset := 0\<rparr>) (the_chunks a))"
    using ok by (auto simp add: arena_ok_def list_all_iff chunk_ok_def)
  then show ?thesis using ok by (simp add: a' arena_ok_def the_chunks_def)
qed

lemma step_preserves:
  assumes "arena_ok a" and "step a c = Inr a'"
  shows "arena_ok a'"
  using assms
  by (cases c) (auto split: sum.splits intro: AllocBytes_preserves EnsureCapacity_preserves Reset_preserves)

lemma run_preserves:
  assumes "arena_ok a" and "run a calls = Inr a'"
  shows "arena_ok a'"
  using assms
proof (induction calls arbitrary: a)
  case Nil
  then show ?case by simp
next
  case (Cons c calls)
  then show ?case by (auto split: sum.splits dest: step_preserves)
qed

lemma DefaultChunkSize_val: "DefaultChunkSize = 65536"
  by (simp add: DefaultChunkSize_def)

lemma resolved_size_pos: "0 <s resolved_size cs0"
  by (simp add: resolved_size_def DefaultChunkSize_val word_sless_alt word_sle_eq)

lemma NewArena_result:
  assumes "NewArena cs0 = Inr a"
  shows "a = \<lparr>chunks = Some [\<lparr>buf = replicate (unat (resolved_size cs0)) 0, offset = 0\<rparr>],
              chunkSize = resolved_size cs0\<rparr>"
    and "unat (resolved_size cs0) \<le> maxAlloc"
  using assms
  by (auto simp add: NewArena_def resolved_size_def grow_def make_bytes_def append_chunk_def Let_def
           split: sum.splits if_splits)

lemma NewArena_succeeds:
  assumes "unat (resolved_size cs0) \<le> maxAlloc"
  shows "NewArena cs0 =
           Inr \<lparr>chunks = Some [\<lparr>buf = replicate (unat (resolved_size cs0)) 0, offset = 0\<rparr>],
                chunkSize = resolved_size cs0\<rparr>"
proof -
  have "\<not> resolved_size cs0 <s 0"
    using resolved_size_pos [of cs0] by (simp add: word_sless_alt)
  then show ?thesis
    using assms
    by (simp add: NewArena_def resolved_size_def [symmetric] grow_def make_bytes_def
          append_chunk_def Let_def)
qed

lemma NewArena_ok:
  assumes "NewArena cs0 = Inr a"
  shows "arena_ok a"
proof -
  note r = NewArena_result [OF assms]
  have "arena_ok \<lparr>chunks = Some [\<lparr>buf = replicate (unat (resolved_size cs0)) 0, offset = 0\<rparr>],
              chunkSize = resolved_size cs0\<rparr>"
    using r(2) resolved_size_pos [of cs0]
    by (simp add: arena_ok_def the_chunks_def chunk_ok_def)
  then show ?thesis using r(1) by simp
qed

lemma exec_ok:
  assumes "exec cs0 calls = Inr a"
  shows "arena_ok a"
  using assms by (auto simp add: exec_def split: sum.splits dest: NewArena_ok run_preserves)

text \<open>
  On a well-formed arena a request of \<open>n > 0\<close> bytes within the allocator's limit is served
  by a view of \<open>n\<close> bytes that lies inside one chunk and starts at a multiple of 8.
\<close>

lemma AllocBytes_succeeds:
  assumes ok: "arena_ok a" and n: "0 <s n" and lim: "unat n \<le> maxAlloc"
  shows "\<exists>r a'. AllocBytes a n = Inr (Some r, a') \<and>
           int (r_len r) = sint n \<and> r_start r mod 8 = 0 \<and>
           r_chunk r < length (the_chunks a') \<and>
           r_start r + r_len r \<le> length (buf (the_chunks a' ! r_chunk r))"
proof -
  obtain cs where cs: "chunks a = Some cs" using ok by (auto simp add: arena_ok_def)
  have ne: "cs \<noteq> []" using ok cs by (simp add: arena_ok_def the_chunks_def)
  have len: "int (unat n) = sint n"
    using pos_signed(2) [OF n] by (simp only: sint_eq_unat)
  show ?thesis
  proof (cases "unat n + unat (alignPtr (offset (last cs))) \<le> length (buf (last cs))")
    case True
    show ?thesis
      using AllocBytes_fit [OF ok cs n True] len ne True
      by (simp add: the_chunks_def alignPtr_mod8 add.commute del: of_nat_unat)
  next
    case False
    then show ?thesis
      using AllocBytes_grow [OF ok cs n lim] len
      by (simp add: the_chunks_def del: of_nat_unat)
  qed
qed

section \<open>The claims\<close>

text \<open>
  C1. For every \<open>n > 0\<close>, \<^verbatim>\<open>AllocBytes(n)\<close> on a well-formed (hence non-released) arena
  returns a region of exactly \<open>n\<close> bytes inside one chunk, starting at an offset of that
  chunk that is a multiple of the pointer size 8. The one other outcome is the host
  allocator's refusal, which happens exactly when \<open>n\<close> is above its limit. Every arena
  that \<^verbatim>\<open>NewArena\<close>, \<^verbatim>\<open>AllocBytes\<close>, \<^verbatim>\<open>EnsureCapacity\<close> and \<^verbatim>\<open>Reset\<close> lead to is well formed
  (\<open>exec_ok\<close>).
\<close>

theorem AllocBytes_length_and_alignment:
  assumes "arena_ok a" and "0 <s n"
  shows "if unat n \<le> maxAlloc
         then \<exists>r a'. AllocBytes a n = Inr (Some r, a') \<and>
                int (r_len r) = sint n \<and> r_start r mod 8 = 0 \<and>
                r_chunk r < length (the_chunks a') \<and>
                r_start r + r_len r \<le> length (buf (the_chunks a' ! r_chunk r))
         else AllocBytes a n = Inl AllocationFailure"
proof (cases "unat n \<le> maxAlloc")
  case False
  then show ?thesis using AllocBytes_too_large [OF assms] by simp
next
  case True
  then show ?thesis using AllocBytes_succeeds [OF assms True] by simp
qed

theorem AllocBytes_length_and_alignment_witness:
  "arena_ok \<lparr>chunks = Some [\<lparr>buf = replicate 24 0, offset = 3\<rparr>], chunkSize = 24\<rparr> \<and>
   0 <s (5 :: go_int) \<and> unat (5 :: go_int) \<le> maxAlloc \<and>
   AllocBytes \<lparr>chunks = Some [\<lparr>buf = replicate 24 0, offset = 3\<rparr>], chunkSize = 24\<rparr> 5 =
     Inr (Some \<lparr>r_chunk = 0, r_start = 8, r_len = 5\<rparr>,
          \<lparr>chunks = Some [\<lparr>buf = replicate 24 0, offset = 13\<rparr>], chunkSize = 24\<rparr>) \<and>
   (\<exists>r a'. AllocBytes \<lparr>chunks = Some [\<lparr>buf = replicate 24 0, offset = 3\<rparr>], chunkSize = 24\<rparr> 5 =
              Inr (Some r, a') \<and>
            int (r_len r) = sint (5 :: go_int) \<and> r_start r mod 8 = 0 \<and>
            r_chunk r < length (the_chunks a') \<and>
            r_start r + r_len r \<le> length (buf (the_chunks a' ! r_chunk r)))"
proof -
  let ?a = "\<lparr>chunks = Some [\<lparr>buf = replicate 24 0, offset = 3\<rparr>], chunkSize = 24\<rparr>"
  have h1: "arena_ok ?a"
    by (simp add: arena_ok_def the_chunks_def chunk_ok_def maxAlloc_def word_sless_alt)
  have h2: "0 <s (5 :: go_int)" by (simp add: word_sless_alt)
  have h3: "unat (5 :: go_int) \<le> maxAlloc" by (simp add: maxAlloc_def)
  have v: "AllocBytes ?a 5 =
     Inr (Some \<lparr>r_chunk = 0, r_start = 8, r_len = 5\<rparr>,
          \<lparr>chunks = Some [\<lparr>buf = replicate 24 0, offset = 13\<rparr>], chunkSize = 24\<rparr>)"
    by (simp add: AllocBytes_def panicIfReleased_def len_chunks_def the_chunks_def alignPtr_def
          carve_def Let_def word_sle_eq word_sless_alt)
  from AllocBytes_length_and_alignment [OF h1 h2] h3
  have "\<exists>r a'. AllocBytes ?a 5 = Inr (Some r, a') \<and>
            int (r_len r) = sint (5 :: go_int) \<and> r_start r mod 8 = 0 \<and>
            r_chunk r < length (the_chunks a') \<and>
            r_start r + r_len r \<le> length (buf (the_chunks a' ! r_chunk r))"
    by (simp only: if_True)
  with h1 h2 h3 v show ?thesis by (intro conjI)
qed

lemma released_chunks: "chunks (Release a) = None"
  by (simp add: Release_def)

text \<open>
  C2 (amended). After \<^verbatim>\<open>Release()\<close>, \<^verbatim>\<open>AllocBytes(n)\<close> with \<open>n > 0\<close>, \<^verbatim>\<open>Reset()\<close> and
  \<^verbatim>\<open>EnsureCapacity(m)\<close> for any \<open>m\<close> panic with use-after-release; \<^verbatim>\<open>AllocBytes(n)\<close> with
  \<open>n \<le> 0\<close> returns the nil slice and leaves the arena as it is; a second \<^verbatim>\<open>Release()\<close>
  changes nothing and does not panic.
\<close>

theorem calls_after_Release:
  "(0 <s n \<longrightarrow> AllocBytes (Release a) n = Inl UseAfterRelease) \<and>
   (n \<le>s 0 \<longrightarrow> AllocBytes (Release a) n = Inr (None, Release a)) \<and>
   Reset (Release a) = Inl UseAfterRelease \<and>
   EnsureCapacity (Release a) m = Inl UseAfterRelease \<and>
   Release (Release a) = Release a"
  by (simp add: AllocBytes_def Reset_def EnsureCapacity_def panicIfReleased_def Release_def
        word_sless_alt word_sle_eq)

theorem calls_after_Release_witness:
  "0 <s (100 :: go_int) \<and>
   AllocBytes (Release \<lparr>chunks = Some [\<lparr>buf = replicate 8 0, offset = 0\<rparr>], chunkSize = 8\<rparr>) 100 =
     Inl UseAfterRelease \<and>
   (0 :: go_int) \<le>s 0 \<and>
   AllocBytes (Release \<lparr>chunks = Some [\<lparr>buf = replicate 8 0, offset = 0\<rparr>], chunkSize = 8\<rparr>) 0 =
     Inr (None, \<lparr>chunks = None, chunkSize = 8\<rparr>) \<and>
   Reset (Release \<lparr>chunks = Some [\<lparr>buf = replicate 8 0, offset = 0\<rparr>], chunkSize = 8\<rparr>) =
     Inl UseAfterRelease \<and>
   EnsureCapacity (Release \<lparr>chunks = Some [\<lparr>buf = replicate 8 0, offset = 0\<rparr>], chunkSize = 8\<rparr>) 100 =
     Inl UseAfterRelease \<and>
   Release (Release \<lparr>chunks = Some [\<lparr>buf = replicate 8 0, offset = 0\<rparr>], chunkSize = 8\<rparr>) =
     \<lparr>chunks = None, chunkSize = 8\<rparr>"
proof -
  let ?a = "\<lparr>chunks = Some [\<lparr>buf = replicate 8 0, offset = 0\<rparr>], chunkSize = 8\<rparr>"
  have r: "Release ?a = \<lparr>chunks = None, chunkSize = 8\<rparr>" by (simp add: Release_def)
  have p: "0 <s (100 :: go_int)" by (simp add: word_sless_alt)
  have z: "(0 :: go_int) \<le>s 0" by (simp add: word_sle_eq)
  show ?thesis
    using calls_after_Release [of 100 ?a 100] calls_after_Release [of 0 ?a 100] p z r
    by simp
qed

theorem AllocBytes_zero_after_Release_counterexample:
  "AllocBytes (Release \<lparr>chunks = Some [\<lparr>buf = replicate 8 0, offset = 0\<rparr>], chunkSize = 8\<rparr>) 0 =
     Inr (None, \<lparr>chunks = None, chunkSize = 8\<rparr>) \<and>
   AllocBytes (Release \<lparr>chunks = Some [\<lparr>buf = replicate 8 0, offset = 0\<rparr>], chunkSize = 8\<rparr>) 0 \<noteq>
     Inl UseAfterRelease"
  by (simp add: AllocBytes_def Release_def word_sle_eq)

text \<open>
  C5. \<^verbatim>\<open>NewArena(chunkSize)\<close> with \<open>chunkSize \<le> 0\<close> returns an arena whose \<^verbatim>\<open>ChunkSize()\<close>
  is 65536, and every arena that \<^verbatim>\<open>NewArena\<close> returns has exactly one chunk, of the
  resolved size and unused.
\<close>

theorem NewArena_default_size_and_one_chunk:
  "(cs0 \<le>s 0 \<longrightarrow>
      (\<exists>a. NewArena cs0 = Inr a \<and> ChunkSize a = 65536 \<and> NumChunks a = 1)) \<and>
   (NewArena cs0 = Inr a \<longrightarrow>
      NumChunks a = 1 \<and> ChunkSize a = resolved_size cs0 \<and>
      the_chunks a = [\<lparr>buf = replicate (unat (resolved_size cs0)) 0, offset = 0\<rparr>])"
proof (intro conjI impI)
  assume neg: "cs0 \<le>s 0"
  then have r: "resolved_size cs0 = 65536"
    by (simp add: resolved_size_def DefaultChunkSize_val)
  then have "unat (resolved_size cs0) \<le> maxAlloc" by (simp add: maxAlloc_def)
  from NewArena_succeeds [OF this] r
  show "\<exists>a. NewArena cs0 = Inr a \<and> ChunkSize a = 65536 \<and> NumChunks a = 1"
    by (simp add: ChunkSize_def NumChunks_def)
next
  assume "NewArena cs0 = Inr a"
  from NewArena_result(1) [OF this]
  have a: "a = \<lparr>chunks = Some [\<lparr>buf = replicate (unat (resolved_size cs0)) 0, offset = 0\<rparr>],
              chunkSize = resolved_size cs0\<rparr>" .
  show "NumChunks a = 1" by (subst a) (simp add: NumChunks_def)
  show "ChunkSize a = resolved_size cs0" by (subst a) (simp add: ChunkSize_def)
  show "the_chunks a = [\<lparr>buf = replicate (unat (resolved_size cs0)) 0, offset = 0\<rparr>]"
    by (subst a) (simp add: the_chunks_def)
qed

theorem NewArena_default_size_and_one_chunk_witness:
  "(0 :: go_int) \<le>s 0 \<and>
   (\<exists>a. NewArena 0 = Inr a \<and> ChunkSize a = 65536 \<and> NumChunks a = 1) \<and>
   NewArena 1024 = Inr \<lparr>chunks = Some [\<lparr>buf = replicate 1024 0, offset = 0\<rparr>], chunkSize = 1024\<rparr> \<and>
   NumChunks \<lparr>chunks = Some [\<lparr>buf = replicate 1024 0, offset = 0\<rparr>], chunkSize = 1024\<rparr> = 1"
proof -
  let ?a = "\<lparr>chunks = Some [\<lparr>buf = replicate 1024 0, offset = 0\<rparr>], chunkSize = 1024\<rparr>"
  have z: "(0 :: go_int) \<le>s 0" by (simp add: word_sle_eq)
  have n: "NewArena 1024 = Inr ?a"
    by (simp add: NewArena_def grow_def make_bytes_def maxAlloc_def append_chunk_def Let_def
          word_sle_eq word_sless_alt)
  show ?thesis
    using NewArena_default_size_and_one_chunk [of 0 ?a]
      NewArena_default_size_and_one_chunk [of 1024 ?a] z n
    by simp
qed

text \<open>
  The draft of the constructor in \<^verbatim>\<open>src/arena.go\<close> also allocates one chunk, of its own
  default of 1 MiB.
\<close>

lemma NewArena_draft_default:
  "NewArena_draft 0 =
     Inr \<lparr>chunks = Some [\<lparr>buf = replicate 1048576 0, offset = 0\<rparr>], chunkSize = 1048576\<rparr>"
  by (simp add: NewArena_draft_def defaultChunkSize_def grow_def make_bytes_def maxAlloc_def
        append_chunk_def Let_def word_sle_eq word_sless_alt)

text \<open>
  C6. After \<^verbatim>\<open>Release()\<close> the accessors \<^verbatim>\<open>SizeInUse()\<close>, \<^verbatim>\<open>NumChunks()\<close>, \<^verbatim>\<open>Capacity()\<close>
  and \<^verbatim>\<open>Utilization()\<close> all return 0.
\<close>

theorem metrics_after_Release:
  "SizeInUse (Release a) = 0 \<and> NumChunks (Release a) = 0 \<and>
   Capacity (Release a) = 0 \<and> Utilization (Release a) = 0"
  by (simp add: SizeInUse_def NumChunks_def Capacity_def Utilization_def Release_def)

lemma foldl_offsets_reset:
  "foldl (\<lambda>sum c. sum + offset c) s (map (\<lambda>c. c\<lparr>offset := 0\<rparr>) cs) = s"
  by (induction cs arbitrary: s) simp_all

lemma foldl_lengths_reset:
  "foldl (\<lambda>sum c. sum + of_nat (length (buf c))) s (map (\<lambda>c. c\<lparr>offset := 0\<rparr>) cs) =
   foldl (\<lambda>sum c. sum + of_nat (length (buf c))) (s :: go_int) cs"
  by (induction cs arbitrary: s) simp_all

text \<open>
  C7. \<^verbatim>\<open>Reset()\<close> on a non-released arena returns, and right after it \<^verbatim>\<open>SizeInUse()\<close> is
  0 while \<^verbatim>\<open>NumChunks()\<close> and \<^verbatim>\<open>Capacity()\<close> have the values they had just before; the
  buffers of the chunks and the chunk size are the same.
\<close>

theorem Reset_metrics:
  assumes "chunks a \<noteq> None"
  shows "\<exists>a'. Reset a = Inr a' \<and> SizeInUse a' = 0 \<and> NumChunks a' = NumChunks a \<and>
           Capacity a' = Capacity a \<and> map buf (the_chunks a') = map buf (the_chunks a) \<and>
           chunkSize a' = chunkSize a"
proof -
  obtain cs where cs: "chunks a = Some cs" using assms by auto
  then have "Reset a = Inr (a\<lparr>chunks := Some (map (\<lambda>c. c\<lparr>offset := 0\<rparr>) cs)\<rparr>)"
    by (simp add: Reset_def panicIfReleased_def the_chunks_def)
  then show ?thesis
    using cs
    by (simp add: SizeInUse_def NumChunks_def Capacity_def the_chunks_def
          foldl_offsets_reset foldl_lengths_reset comp_def)
qed

theorem Reset_metrics_witness:
  "chunks \<lparr>chunks = Some [\<lparr>buf = replicate 8 0, offset = 8\<rparr>, \<lparr>buf = replicate 8 0, offset = 5\<rparr>],
           chunkSize = 8\<rparr> \<noteq> None \<and>
   SizeInUse \<lparr>chunks = Some [\<lparr>buf = replicate 8 0, offset = 8\<rparr>, \<lparr>buf = replicate 8 0, offset = 5\<rparr>],
           chunkSize = 8\<rparr> = 13 \<and>
   (\<exists>a'. Reset \<lparr>chunks = Some [\<lparr>buf = replicate 8 0, offset = 8\<rparr>,
                                \<lparr>buf = replicate 8 0, offset = 5\<rparr>], chunkSize = 8\<rparr> = Inr a' \<and>
         SizeInUse a' = 0 \<and> NumChunks a' = 2 \<and> Capacity a' = 16)"
proof -
  let ?a = "\<lparr>chunks = Some [\<lparr>buf = replicate 8 0, offset = 8\<rparr>, \<lparr>buf = replicate 8 0, offset = 5\<rparr>],
           chunkSize = 8\<rparr>"
  have h: "chunks ?a \<noteq> None" by simp
  have m: "SizeInUse ?a = 13" "NumChunks ?a = 2" "Capacity ?a = 16"
    by (simp_all add: SizeInUse_def NumChunks_def Capacity_def)
  from Reset_metrics [OF h] m h show ?thesis by auto
qed

text \<open>
  C10. For a type of size 0, \<^verbatim>\<open>Alloc\<close>, \<^verbatim>\<open>AllocZeroed\<close> and \<^verbatim>\<open>AllocUninitialized\<close> panic on
  every arena: \<^verbatim>\<open>AllocBytes(0)\<close> returns the nil slice and indexing its element 0 is out
  of range.
\<close>

theorem zero_sized_type_panics:
  "AllocBytes a 0 = Inr (None, a) \<and>
   Alloc a 0 = Inl IndexOutOfRange \<and>
   AllocZeroed a 0 = Inl IndexOutOfRange \<and>
   AllocUninitialized a 0 = Inl IndexOutOfRange"
  by (simp add: Alloc_def AllocZeroed_def AllocUninitialized_def AllocBytes_def elem0_def
        len_region_def word_sle_eq)

lemma clear_bytes_length: "length (clear_bytes xs s l) = length xs"
  by (simp add: clear_bytes_def)

lemma clear_bytes_read:
  assumes "s + l \<le> length xs"
  shows "take l (drop s (clear_bytes xs s l)) = replicate l 0"
proof (rule nth_equalityI)
  show "length (take l (drop s (clear_bytes xs s l))) = length (replicate l (0::byte))"
    using assms by (simp add: clear_bytes_length)
next
  fix i
  assume "i < length (take l (drop s (clear_bytes xs s l)))"
  then have i: "i < l" by simp
  then have "s + i < length xs" using assms by simp
  then have "clear_bytes xs s l ! (s + i) = 0"
    using i by (simp add: clear_bytes_def)
  then show "take l (drop s (clear_bytes xs s l)) ! i = replicate l 0 ! i"
    using i assms by (simp add: clear_bytes_length)
qed

text \<open>
  For a type of positive size, \<^verbatim>\<open>Alloc\<close> returns a pointer to \<open>sizeof_T\<close> bytes of one
  chunk, word aligned, and every one of these bytes reads 0 right after the call,
  whatever the buffer held before.
\<close>

lemma Alloc_zero_fills:
  assumes ok: "arena_ok a" and n: "0 <s sizeof_T" and lim: "unat sizeof_T \<le> maxAlloc"
  shows "\<exists>p a'. Alloc a sizeof_T = Inr (p, a') \<and> snd p mod 8 = 0 \<and>
           fst p < length (the_chunks a') \<and>
           snd p + unat sizeof_T \<le> length (buf (the_chunks a' ! fst p)) \<and>
           read_bytes a' p (unat sizeof_T) = replicate (unat sizeof_T) 0"
proof -
  from AllocBytes_succeeds [OF ok n lim]
  obtain r a1 where r: "AllocBytes a sizeof_T = Inr (Some r, a1)"
    and len: "int (r_len r) = sint sizeof_T" and al: "r_start r mod 8 = 0"
    and ci: "r_chunk r < length (the_chunks a1)"
    and bd: "r_start r + r_len r \<le> length (buf (the_chunks a1 ! r_chunk r))"
    by auto
  have "int (unat sizeof_T) = sint sizeof_T"
    using pos_signed(2) [OF n] by (simp only: sint_eq_unat)
  with len have l: "r_len r = unat sizeof_T" by (simp del: of_nat_unat)
  have pos: "0 < r_len r" using l pos_signed(1) [OF n] by simp
  obtain cs1 where cs1: "chunks a1 = Some cs1"
    using ci by (cases "chunks a1") (simp_all add: the_chunks_def)
  show ?thesis
    using r pos l al ci bd cs1 clear_bytes_read [OF bd]
    by (simp add: Alloc_def len_region_def elem0_def clear_def read_bytes_def the_chunks_def
          clear_bytes_length)
qed


text \<open>
  C9. The code at a type of size 0, for example \<^verbatim>\<open>Alloc[struct{}](NewArena(1024))\<close>:
  \<^verbatim>\<open>AllocBytes(0)\<close> returns nil, \<^verbatim>\<open>clear\<close> is skipped and \<^verbatim>\<open>&b[0]\<close> panics, so no region
  is returned.
\<close>

theorem Alloc_empty_struct_panics:
  "NewArena 1024 =
     Inr \<lparr>chunks = Some [\<lparr>buf = replicate 1024 0, offset = 0\<rparr>], chunkSize = 1024\<rparr> \<and>
   Alloc \<lparr>chunks = Some [\<lparr>buf = replicate 1024 0, offset = 0\<rparr>], chunkSize = 1024\<rparr> 0 =
     Inl IndexOutOfRange"
  by (simp add: NewArena_def grow_def make_bytes_def maxAlloc_def append_chunk_def Let_def
        Alloc_def AllocBytes_def elem0_def len_region_def word_sle_eq word_sless_alt)

lemma run_released:
  assumes "chunks a = None" and "run a calls = Inr a'"
  shows "a' = a"
  using assms
proof (induction calls arbitrary: a)
  case Nil
  then show ?case by simp
next
  case (Cons c calls)
  from Cons.prems obtain a1 where s: "step a c = Inr a1" and r: "run a1 calls = Inr a'"
    by (auto split: sum.splits)
  have "a1 = a"
    using s Cons.prems(1)
    by (cases c)
      (auto simp add: AllocBytes_def EnsureCapacity_def Reset_def panicIfReleased_def
            split: sum.splits if_splits)
  then show ?case using Cons.IH [of a] Cons.prems(1) r by simp
qed

text \<open>
  C8. Every arena reached from \<^verbatim>\<open>NewArena\<close> by a sequence of \<^verbatim>\<open>AllocBytes\<close>,
  \<^verbatim>\<open>EnsureCapacity\<close> and \<^verbatim>\<open>Reset\<close> calls is not released, has at least one chunk, and each
  of its chunks has \<open>0 \<le> offset \<le> len(buf)\<close>. After \<^verbatim>\<open>Release\<close> the chunk sequence is empty
  and stays so: no sequence of calls leads from the released arena to another state,
  and \<^verbatim>\<open>Release\<close> again gives the same arena.
\<close>

theorem arena_invariants:
  "(exec cs0 calls = Inr a \<longrightarrow>
      chunks a \<noteq> None \<and> the_chunks a \<noteq> [] \<and>
      (\<forall>c \<in> set (the_chunks a). 0 \<le> unat (offset c) \<and> unat (offset c) \<le> length (buf c))) \<and>
   chunks (Release a0) = None \<and> the_chunks (Release a0) = [] \<and> NumChunks (Release a0) = 0 \<and>
   (run (Release a0) calls' = Inr a1 \<longrightarrow> a1 = Release a0) \<and>
   Release (Release a0) = Release a0"
proof -
  have "chunks a \<noteq> None \<and> the_chunks a \<noteq> [] \<and>
      (\<forall>c \<in> set (the_chunks a). 0 \<le> unat (offset c) \<and> unat (offset c) \<le> length (buf c))"
    if "exec cs0 calls = Inr a"
    using exec_ok [OF that] by (simp add: arena_ok_def list_all_iff chunk_ok_def)
  moreover have "a1 = Release a0" if "run (Release a0) calls' = Inr a1"
    using run_released [OF released_chunks that] .
  ultimately show ?thesis
    by (simp add: Release_def the_chunks_def NumChunks_def)
qed

theorem arena_invariants_witness:
  "exec 8 [CallAllocBytes 8, CallAllocBytes 3, CallReset, CallAllocBytes 5, CallEnsureCapacity 32] =
     Inr \<lparr>chunks = Some [\<lparr>buf = replicate 8 0, offset = 0\<rparr>, \<lparr>buf = replicate 8 0, offset = 5\<rparr>,
                          \<lparr>buf = replicate 32 0, offset = 0\<rparr>], chunkSize = 8\<rparr> \<and>
   list_all (\<lambda>c. unat (offset c) \<le> length (buf c))
     (the_chunks \<lparr>chunks = Some [\<lparr>buf = replicate 8 0, offset = 0\<rparr>,
                                  \<lparr>buf = replicate 8 0, offset = 5\<rparr>,
                                  \<lparr>buf = replicate 32 0, offset = 0\<rparr>], chunkSize = 8\<rparr>) \<and>
   run (Release \<lparr>chunks = Some [\<lparr>buf = replicate 8 0, offset = 0\<rparr>], chunkSize = 8\<rparr>)
       [CallAllocBytes 0, CallAllocBytes (- 1)] =
     Inr (Release \<lparr>chunks = Some [\<lparr>buf = replicate 8 0, offset = 0\<rparr>], chunkSize = 8\<rparr>)"
proof -
  let ?a = "\<lparr>chunks = Some [\<lparr>buf = replicate 8 0, offset = 0\<rparr>, \<lparr>buf = replicate 8 0, offset = 5\<rparr>,
                          \<lparr>buf = replicate 32 0, offset = 0\<rparr>], chunkSize = 8\<rparr>"
  let ?b = "\<lparr>chunks = Some [\<lparr>buf = replicate 8 0, offset = 0\<rparr>], chunkSize = 8\<rparr>"
  have e: "exec 8 [CallAllocBytes 8, CallAllocBytes 3, CallReset, CallAllocBytes 5,
                   CallEnsureCapacity 32] = Inr ?a"
    by (simp add: exec_def NewArena_def grow_def make_bytes_def maxAlloc_def append_chunk_def
          AllocBytes_def panicIfReleased_def len_chunks_def the_chunks_def alignPtr_def carve_def
          Reset_def EnsureCapacity_def Let_def word_sle_eq word_sless_alt)
  have r: "run (Release ?b) [CallAllocBytes 0, CallAllocBytes (- 1)] = Inr (Release ?b)"
    by (simp add: AllocBytes_def Release_def word_sle_eq)
  show ?thesis
    using arena_invariants [of 8 "[CallAllocBytes 8, CallAllocBytes 3, CallReset, CallAllocBytes 5,
                   CallEnsureCapacity 32]" ?a ?b "[CallAllocBytes 0, CallAllocBytes (- 1)]" "Release ?b"]
      e r
    by (simp add: list_all_iff)
qed

text \<open>
  C3 (amended). On a well-formed arena a request of \<open>n > 0\<close> bytes (within the allocator's
  limit) succeeds. When it does not fit in the current chunk, exactly one chunk of
  \<open>max(chunkSize, n)\<close> bytes is appended and the request is served from its offset 0;
  when it fits, no chunk is appended. Either way the chunk that serves the request has
  at least \<open>n\<close> bytes, and for \<open>n\<close> above the configured chunk size an appended chunk
  has exactly \<open>n\<close>.
\<close>

theorem AllocBytes_growth_policy:
  assumes ok: "arena_ok a" and n: "0 <s n" and lim: "unat n \<le> maxAlloc"
  shows "\<exists>r a'. AllocBytes a n = Inr (Some r, a') \<and>
           (if length (buf (last (the_chunks a)))
                 < unat n + unat (alignPtr (offset (last (the_chunks a))))
            then the_chunks a' = the_chunks a @
                   [\<lparr>buf = replicate (max (unat (chunkSize a)) (unat n)) 0, offset = n\<rparr>] \<and>
                 r = \<lparr>r_chunk = length (the_chunks a), r_start = 0, r_len = unat n\<rparr> \<and>
                 (chunkSize a <s n \<longrightarrow> length (buf (last (the_chunks a'))) = unat n)
            else length (the_chunks a') = length (the_chunks a) \<and>
                 r_chunk r = length (the_chunks a) - 1) \<and>
           unat n \<le> length (buf (the_chunks a' ! r_chunk r))"
proof -
  obtain cs where cs: "chunks a = Some cs" using ok by (auto simp add: arena_ok_def)
  have ne: "cs \<noteq> []" and cpos: "0 <s chunkSize a"
    using ok cs by (simp_all add: arena_ok_def the_chunks_def)
  have tc: "the_chunks a = cs" using cs by (simp add: the_chunks_def)
  show ?thesis
  proof (cases "length (buf (last cs)) < unat n + unat (alignPtr (offset (last cs)))")
    case nofit: True
    have "max (unat (chunkSize a)) (unat n) = unat n" if "chunkSize a <s n"
    proof -
      have "grow_size a n = n" using that by (simp add: grow_size_def)
      then show ?thesis using grow_size_max [OF cpos n] by simp
    qed
    then show ?thesis
      using AllocBytes_grow [OF ok cs n lim nofit] nofit tc
      by (simp add: the_chunks_def)
  next
    case False
    then have fit: "unat n + unat (alignPtr (offset (last cs))) \<le> length (buf (last cs))"
      by simp
    show ?thesis
      using AllocBytes_fit [OF ok cs n fit] False fit ne tc
      by (simp add: the_chunks_def)
  qed
qed

theorem AllocBytes_growth_policy_witness:
  "arena_ok \<lparr>chunks = Some [\<lparr>buf = replicate 8 0, offset = 3\<rparr>], chunkSize = 8\<rparr> \<and>
   0 <s (16 :: go_int) \<and> unat (16 :: go_int) \<le> maxAlloc \<and>
   length (buf (last (the_chunks \<lparr>chunks = Some [\<lparr>buf = replicate 8 0, offset = 3\<rparr>],
                                   chunkSize = 8\<rparr>)))
     < unat (16 :: go_int) +
       unat (alignPtr (offset (last (the_chunks
               \<lparr>chunks = Some [\<lparr>buf = replicate 8 0, offset = 3\<rparr>], chunkSize = 8\<rparr>)))) \<and>
   (8 :: go_int) <s 16 \<and>
   (\<exists>a'. AllocBytes \<lparr>chunks = Some [\<lparr>buf = replicate 8 0, offset = 3\<rparr>], chunkSize = 8\<rparr> 16 =
           Inr (Some \<lparr>r_chunk = 1, r_start = 0, r_len = 16\<rparr>, a') \<and>
         the_chunks a' = [\<lparr>buf = replicate 8 0, offset = 3\<rparr>, \<lparr>buf = replicate 16 0, offset = 16\<rparr>])"
proof -
  let ?a = "\<lparr>chunks = Some [\<lparr>buf = replicate 8 0, offset = 3\<rparr>], chunkSize = 8\<rparr>"
  have h1: "arena_ok ?a"
    by (simp add: arena_ok_def the_chunks_def chunk_ok_def maxAlloc_def word_sless_alt)
  have h2: "0 <s (16 :: go_int)" by (simp add: word_sless_alt)
  have h3: "unat (16 :: go_int) \<le> maxAlloc" by (simp add: maxAlloc_def)
  have h4: "length (buf (last (the_chunks ?a)))
              < unat (16 :: go_int) + unat (alignPtr (offset (last (the_chunks ?a))))"
    by (simp add: the_chunks_def alignPtr_def)
  have h5: "(8 :: go_int) <s 16" by (simp add: word_sless_alt)
  have t: "the_chunks ?a = [\<lparr>buf = replicate 8 0, offset = 3\<rparr>]"
    by (simp add: the_chunks_def)
  from AllocBytes_growth_policy [OF h1 h2 h3] h4
  have "\<exists>a'. AllocBytes ?a 16 = Inr (Some \<lparr>r_chunk = 1, r_start = 0, r_len = 16\<rparr>, a') \<and>
         the_chunks a' = [\<lparr>buf = replicate 8 0, offset = 3\<rparr>, \<lparr>buf = replicate 16 0, offset = 16\<rparr>]"
    by (auto simp add: t)
  with h1 h2 h3 h4 h5 show ?thesis by (intro conjI)
qed


theorem AllocBytes_above_chunkSize_counterexample:
  "exec 8 [CallEnsureCapacity 32] =
     Inr \<lparr>chunks = Some [\<lparr>buf = replicate 8 0, offset = 0\<rparr>, \<lparr>buf = replicate 32 0, offset = 0\<rparr>],
          chunkSize = 8\<rparr> \<and>
   chunkSize \<lparr>chunks = Some [\<lparr>buf = replicate 8 0, offset = 0\<rparr>, \<lparr>buf = replicate 32 0, offset = 0\<rparr>],
          chunkSize = 8\<rparr> <s 16 \<and>
   AllocBytes \<lparr>chunks = Some [\<lparr>buf = replicate 8 0, offset = 0\<rparr>, \<lparr>buf = replicate 32 0, offset = 0\<rparr>],
          chunkSize = 8\<rparr> 16 =
     Inr (Some \<lparr>r_chunk = 1, r_start = 0, r_len = 16\<rparr>,
          \<lparr>chunks = Some [\<lparr>buf = replicate 8 0, offset = 0\<rparr>, \<lparr>buf = replicate 32 0, offset = 16\<rparr>],
           chunkSize = 8\<rparr>) \<and>
   NumChunks \<lparr>chunks = Some [\<lparr>buf = replicate 8 0, offset = 0\<rparr>, \<lparr>buf = replicate 32 0, offset = 0\<rparr>],
          chunkSize = 8\<rparr> = 2 \<and>
   NumChunks \<lparr>chunks = Some [\<lparr>buf = replicate 8 0, offset = 0\<rparr>, \<lparr>buf = replicate 32 0, offset = 16\<rparr>],
          chunkSize = 8\<rparr> = 2"
  by (simp add: exec_def NewArena_def grow_def make_bytes_def maxAlloc_def append_chunk_def
        AllocBytes_def panicIfReleased_def len_chunks_def the_chunks_def alignPtr_def carve_def
        EnsureCapacity_def NumChunks_def Let_def word_sle_eq word_sless_alt)

lemma Reset_result:
  assumes "chunks a = Some cs" and "Reset a = Inr a0"
  shows "a0 = a\<lparr>chunks := Some (map (\<lambda>c. c\<lparr>offset := 0\<rparr>) cs)\<rparr>"
  using assms by (simp add: Reset_def panicIfReleased_def the_chunks_def)

text \<open>
  After \<^verbatim>\<open>Reset()\<close> in the list-recomputing variant the current chunk is the last one,
  with offset 0: a request within its buffer is served from it, a larger one appends a
  chunk.
\<close>

lemma AllocBytes_after_Reset_list:
  assumes ok: "arena_ok a" and rs: "Reset a = Inr z" and n: "0 <s n"
  shows "NumChunks z = NumChunks a"
    and "buf (last (the_chunks z)) = buf (last (the_chunks a))"
    and "unat n \<le> length (buf (last (the_chunks z))) \<Longrightarrow>
           \<exists>a'. AllocBytes z n =
                  Inr (Some \<lparr>r_chunk = length (the_chunks z) - 1, r_start = 0, r_len = unat n\<rparr>, a') \<and>
                NumChunks a' = NumChunks z"
    and "length (buf (last (the_chunks z))) < unat n \<Longrightarrow> unat n \<le> maxAlloc \<Longrightarrow>
           \<exists>a'. AllocBytes z n =
                  Inr (Some \<lparr>r_chunk = length (the_chunks z), r_start = 0, r_len = unat n\<rparr>, a') \<and>
                NumChunks a' = NumChunks z + 1"
proof -
  obtain cs where cs: "chunks a = Some cs" using ok by (auto simp add: arena_ok_def)
  have ne: "cs \<noteq> []" using ok cs by (simp add: arena_ok_def the_chunks_def)
  define cs0 where "cs0 = map (\<lambda>c. c\<lparr>offset := 0\<rparr>) cs"
  have z: "z = a\<lparr>chunks := Some cs0\<rparr>"
    using Reset_result [OF cs rs] by (simp add: cs0_def)
  have cs0: "chunks z = Some cs0" by (simp add: z)
  have okz: "arena_ok z" using Reset_preserves [OF ok rs] .
  have l0: "offset (last cs0) = 0" "buf (last cs0) = buf (last cs)" "length cs0 = length cs"
    using ne by (simp_all add: cs0_def last_map)
  have tz: "the_chunks z = cs0" using cs0 by (simp add: the_chunks_def)
  have tc: "the_chunks a = cs" using cs by (simp add: the_chunks_def)
  show "NumChunks z = NumChunks a" using cs l0 by (simp add: z NumChunks_def)
  show "buf (last (the_chunks z)) = buf (last (the_chunks a))" using l0 tz tc by simp
  show "\<exists>a'. AllocBytes z n =
                  Inr (Some \<lparr>r_chunk = length (the_chunks z) - 1, r_start = 0, r_len = unat n\<rparr>, a') \<and>
                NumChunks a' = NumChunks z"
    if "unat n \<le> length (buf (last (the_chunks z)))"
  proof -
    have fit: "unat n + unat (alignPtr (offset (last cs0))) \<le> length (buf (last cs0))"
      using that l0 tz by (simp add: alignPtr_0)
    show ?thesis
      using AllocBytes_fit [OF okz cs0 n fit] l0 tz
      by (simp add: alignPtr_0 NumChunks_def z)
  qed
  show "\<exists>a'. AllocBytes z n =
                  Inr (Some \<lparr>r_chunk = length (the_chunks z), r_start = 0, r_len = unat n\<rparr>, a') \<and>
                NumChunks a' = NumChunks z + 1"
    if "length (buf (last (the_chunks z))) < unat n" and lim: "unat n \<le> maxAlloc"
  proof -
    have nofit: "length (buf (last cs0)) < unat n + unat (alignPtr (offset (last cs0)))"
      using that(1) l0 tz by (simp add: alignPtr_0)
    show ?thesis
      using AllocBytes_grow [OF okz cs0 n lim nofit] tz
      by (simp add: NumChunks_def z)
  qed
qed

text \<open>
  In the variant with the cached pointer \<^verbatim>\<open>Reset()\<close> makes the first chunk current, with
  offset 0: a request within the buffer of the first chunk is served from it, a larger
  one goes to \<^verbatim>\<open>allocBytesSlow\<close> and appends a chunk, whatever room the later chunks have.
\<close>

lemma Reset_cached_result:
  assumes "chunks a = Some cs" and "cs \<noteq> []" and "Reset_cached a = Inr z"
  shows "z = a\<lparr>chunks := Some (map (\<lambda>c. c\<lparr>offset := 0\<rparr>) cs), currentChunk := Some 0\<rparr>"
  using assms by (simp add: Reset_cached_def Let_def)

lemma AllocBytes_after_Reset_cached:
  assumes ok: "arena_ok (Arena.truncate a)" and rs: "Reset_cached a = Inr z" and n: "0 <s n"
  shows "currentChunk z = Some 0"
    and "NumChunks (Arena.truncate z) = NumChunks (Arena.truncate a)"
    and "buf (the_chunks (Arena.truncate z) ! 0) = buf (the_chunks (Arena.truncate a) ! 0)"
    and "unat n \<le> length (buf (the_chunks (Arena.truncate z) ! 0)) \<Longrightarrow>
           \<exists>a'. AllocBytes_cached z n =
                  Inr (Some \<lparr>r_chunk = 0, r_start = 0, r_len = unat n\<rparr>, a') \<and>
                NumChunks (Arena.truncate a') = NumChunks (Arena.truncate z)"
    and "length (buf (the_chunks (Arena.truncate z) ! 0)) < unat n \<Longrightarrow> unat n \<le> maxAlloc \<Longrightarrow>
           \<exists>a'. AllocBytes_cached z n =
                  Inr (Some \<lparr>r_chunk = length (the_chunks (Arena.truncate z)), r_start = 0,
                             r_len = unat n\<rparr>, a') \<and>
                NumChunks (Arena.truncate a') = NumChunks (Arena.truncate z) + 1"
proof -
  have tr: "chunks (Arena.truncate a) = chunks a" "chunkSize (Arena.truncate a) = chunkSize a"
    by (simp_all add: Arena.truncate_def)
  obtain cs where cs: "chunks a = Some cs" using ok tr by (auto simp add: arena_ok_def)
  have ne: "cs \<noteq> []" and all: "list_all chunk_ok cs"
    and cpos: "0 <s chunkSize a" and clim: "unat (chunkSize a) \<le> maxAlloc"
    using ok cs tr by (simp_all add: arena_ok_def the_chunks_def)
  define cs0 where "cs0 = map (\<lambda>c. c\<lparr>offset := 0\<rparr>) cs"
  have z: "z = a\<lparr>chunks := Some cs0, currentChunk := Some 0\<rparr>"
    using Reset_cached_result [OF cs ne rs] by (simp add: cs0_def)
  have c0: "cs0 ! 0 = (cs ! 0)\<lparr>offset := 0\<rparr>" "cs0 \<noteq> []" "length cs0 = length cs"
    using ne by (simp_all add: cs0_def)
  have tz: "the_chunks (Arena.truncate z) = cs0"
    by (simp add: z the_chunks_def Arena.truncate_def)
  have ta: "the_chunks (Arena.truncate a) = cs"
    using cs by (simp add: the_chunks_def Arena.truncate_def)
  have "chunk_ok (cs ! 0)" using all ne by (simp add: list_all_length)
  then have lim0: "length (buf (cs ! 0)) \<le> maxAlloc" by (simp add: chunk_ok_def)
  have n1: "\<not> n \<le>s 0" using n by (simp add: word_sless_alt word_sle_eq)
  have u: "unat (of_nat (length (buf (cs ! 0))) :: 64 word) = length (buf (cs ! 0))"
    using lim0 by (simp add: unat_of_nat maxAlloc_def)
  show "currentChunk z = Some 0" by (simp add: z)
  show "NumChunks (Arena.truncate z) = NumChunks (Arena.truncate a)"
    using cs c0 by (simp add: z NumChunks_def Arena.truncate_def)
  show "buf (the_chunks (Arena.truncate z) ! 0) = buf (the_chunks (Arena.truncate a) ! 0)"
    using tz ta c0 by simp
  show "\<exists>a'. AllocBytes_cached z n =
                  Inr (Some \<lparr>r_chunk = 0, r_start = 0, r_len = unat n\<rparr>, a') \<and>
                NumChunks (Arena.truncate a') = NumChunks (Arena.truncate z)"
    if "unat n \<le> length (buf (the_chunks (Arena.truncate z) ! 0))"
  proof -
    have fit: "unat n \<le> length (buf (cs ! 0))" using that tz c0 by simp
    then have t: "n \<le> of_nat (length (buf (cs ! 0)))"
      using u by (simp add: word_le_nat_alt)
    have pos: "0 < length (buf (cs ! 0))" using fit pos_signed(1) [OF n] by linarith
    show ?thesis
      using n1 t pos c0
      by (simp add: z AllocBytes_cached_def carve_cached_def alignPtr_0 word_sle_eq Let_def
            NumChunks_def Arena.truncate_def)
  qed
  show "\<exists>a'. AllocBytes_cached z n =
                  Inr (Some \<lparr>r_chunk = length (the_chunks (Arena.truncate z)), r_start = 0,
                             r_len = unat n\<rparr>, a') \<and>
                NumChunks (Arena.truncate a') = NumChunks (Arena.truncate z) + 1"
    if "length (buf (the_chunks (Arena.truncate z) ! 0)) < unat n" and lim: "unat n \<le> maxAlloc"
  proof -
    have nofit: "length (buf (cs ! 0)) < unat n" using that(1) tz c0 by simp
    then have t: "\<not> n \<le> of_nat (length (buf (cs ! 0)))"
      using u by (simp add: word_le_nat_alt)
    define sz where "sz = (if chunkSize a <s n then n else chunkSize a)"
    have "sz = grow_size (Arena.truncate a) n" by (simp add: sz_def grow_size_def tr)
    then have szm: "unat sz = max (unat (chunkSize a)) (unat n)"
      using grow_size_max [of "Arena.truncate a" n] cpos n tr by simp
    then have "unat sz \<le> maxAlloc" using lim clim by simp
    then have mk: "make_bytes sz = Inr (replicate (unat sz) 0)" by (rule make_bytes_ok)
    have szpos: "0 < unat sz" using szm pos_signed(1) [OF n] by simp
    have g: "grow_cached z n =
               Inr (z\<lparr>chunks := Some (cs0 @ [\<lparr>buf = replicate (unat sz) 0, offset = 0\<rparr>]),
                      currentChunk := Some (length cs0)\<rparr>)"
      using mk by (simp add: grow_cached_def z sz_def [symmetric] append_chunk_def Let_def)
    have nl: "(cs0 @ [\<lparr>buf = replicate (unat sz) 0, offset = 0\<rparr>]) ! length cs =
                \<lparr>buf = replicate (unat sz) 0, offset = 0\<rparr>"
      using c0(3) nth_append_length [of cs0] by simp
    have "0 < int (unat sz)" using szpos by (simp only: of_nat_0_less_iff)
    then have upos: "0 < uint sz" by simp
    show ?thesis
      using n1 t c0 g upos tz nl
      by (simp add: AllocBytes_cached_def allocBytesSlow_def carve_cached_def alignPtr_0
            word_sle_eq Let_def NumChunks_def Arena.truncate_def z)
  qed
qed

text \<open>
  C4 (amended). After \<^verbatim>\<open>Reset()\<close> on a well-formed arena, \<^verbatim>\<open>AllocBytes(n)\<close> with \<open>0 < n \<le>\<close> the
  buffer length of the chunk that is current after the reset succeeds without growing:
  it is served from offset 0 of that chunk and \<^verbatim>\<open>NumChunks()\<close> stays what it was before
  the reset. A larger \<open>n\<close> within the allocator's limit appends one chunk, also when it
  is within the \<^verbatim>\<open>Capacity()\<close> measured before the reset. The current chunk after the
  reset is the last chunk where \<^verbatim>\<open>AllocBytes\<close> recomputes it from the list, and the first
  chunk where \<^verbatim>\<open>Reset\<close> sets the cached pointer; the statement holds in both.
\<close>

theorem AllocBytes_after_Reset:
  assumes n: "0 <s n"
  shows "(arena_ok a \<and> Reset a = Inr z \<longrightarrow>
            NumChunks z = NumChunks a \<and>
            buf (last (the_chunks z)) = buf (last (the_chunks a)) \<and>
            (unat n \<le> length (buf (last (the_chunks z))) \<longrightarrow>
               (\<exists>a'. AllocBytes z n =
                       Inr (Some \<lparr>r_chunk = length (the_chunks z) - 1, r_start = 0,
                                  r_len = unat n\<rparr>, a') \<and>
                     NumChunks a' = NumChunks z)) \<and>
            (length (buf (last (the_chunks z))) < unat n \<and> unat n \<le> maxAlloc \<longrightarrow>
               (\<exists>a'. AllocBytes z n =
                       Inr (Some \<lparr>r_chunk = length (the_chunks z), r_start = 0,
                                  r_len = unat n\<rparr>, a') \<and>
                     NumChunks a' = NumChunks z + 1))) \<and>
         (arena_ok (Arena.truncate c) \<and> Reset_cached c = Inr zc \<longrightarrow>
            currentChunk zc = Some 0 \<and>
            NumChunks (Arena.truncate zc) = NumChunks (Arena.truncate c) \<and>
            buf (the_chunks (Arena.truncate zc) ! 0) = buf (the_chunks (Arena.truncate c) ! 0) \<and>
            (unat n \<le> length (buf (the_chunks (Arena.truncate zc) ! 0)) \<longrightarrow>
               (\<exists>a'. AllocBytes_cached zc n =
                       Inr (Some \<lparr>r_chunk = 0, r_start = 0, r_len = unat n\<rparr>, a') \<and>
                     NumChunks (Arena.truncate a') = NumChunks (Arena.truncate zc))) \<and>
            (length (buf (the_chunks (Arena.truncate zc) ! 0)) < unat n \<and> unat n \<le> maxAlloc \<longrightarrow>
               (\<exists>a'. AllocBytes_cached zc n =
                       Inr (Some \<lparr>r_chunk = length (the_chunks (Arena.truncate zc)), r_start = 0,
                                  r_len = unat n\<rparr>, a') \<and>
                     NumChunks (Arena.truncate a') = NumChunks (Arena.truncate zc) + 1)))"
proof (intro conjI impI)
  assume h: "arena_ok a \<and> Reset a = Inr z"
  then have ok: "arena_ok a" and rs: "Reset a = Inr z" by simp_all
  note l = AllocBytes_after_Reset_list [OF ok rs n]
  show "NumChunks z = NumChunks a" by (rule l(1))
  show "buf (last (the_chunks z)) = buf (last (the_chunks a))" by (rule l(2))
  show "\<exists>a'. AllocBytes z n =
              Inr (Some \<lparr>r_chunk = length (the_chunks z) - 1, r_start = 0, r_len = unat n\<rparr>, a') \<and>
            NumChunks a' = NumChunks z"
    if "unat n \<le> length (buf (last (the_chunks z)))"
    using that by (rule l(3))
  show "\<exists>a'. AllocBytes z n =
              Inr (Some \<lparr>r_chunk = length (the_chunks z), r_start = 0, r_len = unat n\<rparr>, a') \<and>
            NumChunks a' = NumChunks z + 1"
    if "length (buf (last (the_chunks z))) < unat n \<and> unat n \<le> maxAlloc"
    using that l(4) by blast
next
  assume h: "arena_ok (Arena.truncate c) \<and> Reset_cached c = Inr zc"
  then have ok: "arena_ok (Arena.truncate c)" and rs: "Reset_cached c = Inr zc" by simp_all
  note l = AllocBytes_after_Reset_cached [OF ok rs n]
  show "currentChunk zc = Some 0" by (rule l(1))
  show "NumChunks (Arena.truncate zc) = NumChunks (Arena.truncate c)" by (rule l(2))
  show "buf (the_chunks (Arena.truncate zc) ! 0) = buf (the_chunks (Arena.truncate c) ! 0)"
    by (rule l(3))
  show "\<exists>a'. AllocBytes_cached zc n =
              Inr (Some \<lparr>r_chunk = 0, r_start = 0, r_len = unat n\<rparr>, a') \<and>
            NumChunks (Arena.truncate a') = NumChunks (Arena.truncate zc)"
    if "unat n \<le> length (buf (the_chunks (Arena.truncate zc) ! 0))"
    using that by (rule l(4))
  show "\<exists>a'. AllocBytes_cached zc n =
              Inr (Some \<lparr>r_chunk = length (the_chunks (Arena.truncate zc)), r_start = 0,
                         r_len = unat n\<rparr>, a') \<and>
            NumChunks (Arena.truncate a') = NumChunks (Arena.truncate zc) + 1"
    if "length (buf (the_chunks (Arena.truncate zc) ! 0)) < unat n \<and> unat n \<le> maxAlloc"
    using that l(5) by blast
qed

theorem AllocBytes_after_Reset_witness:
  "exec 8 [CallAllocBytes 32] =
     Inr \<lparr>chunks = Some [\<lparr>buf = replicate 8 0, offset = 0\<rparr>, \<lparr>buf = replicate 32 0, offset = 32\<rparr>],
          chunkSize = 8\<rparr> \<and>
   arena_ok \<lparr>chunks = Some [\<lparr>buf = replicate 8 0, offset = 0\<rparr>, \<lparr>buf = replicate 32 0, offset = 32\<rparr>],
             chunkSize = 8\<rparr> \<and>
   Reset \<lparr>chunks = Some [\<lparr>buf = replicate 8 0, offset = 0\<rparr>, \<lparr>buf = replicate 32 0, offset = 32\<rparr>],
          chunkSize = 8\<rparr> =
     Inr \<lparr>chunks = Some [\<lparr>buf = replicate 8 0, offset = 0\<rparr>, \<lparr>buf = replicate 32 0, offset = 0\<rparr>],
          chunkSize = 8\<rparr> \<and>
   arena_ok (Arena.truncate
      \<lparr>chunks = Some [\<lparr>buf = replicate 8 0, offset = 0\<rparr>, \<lparr>buf = replicate 32 0, offset = 32\<rparr>],
       chunkSize = 8, currentChunk = Some 1\<rparr>) \<and>
   Reset_cached
      \<lparr>chunks = Some [\<lparr>buf = replicate 8 0, offset = 0\<rparr>, \<lparr>buf = replicate 32 0, offset = 32\<rparr>],
       chunkSize = 8, currentChunk = Some 1\<rparr> =
     Inr \<lparr>chunks = Some [\<lparr>buf = replicate 8 0, offset = 0\<rparr>, \<lparr>buf = replicate 32 0, offset = 0\<rparr>],
          chunkSize = 8, currentChunk = Some 0\<rparr> \<and>
   0 <s (8 :: go_int) \<and> 0 <s (16 :: go_int) \<and> 0 <s (40 :: go_int) \<and>
   unat (16 :: go_int) \<le> maxAlloc \<and> unat (40 :: go_int) \<le> maxAlloc \<and>
   (\<exists>a'. AllocBytes
           \<lparr>chunks = Some [\<lparr>buf = replicate 8 0, offset = 0\<rparr>, \<lparr>buf = replicate 32 0, offset = 0\<rparr>],
            chunkSize = 8\<rparr> 16 =
           Inr (Some \<lparr>r_chunk = 1, r_start = 0, r_len = 16\<rparr>, a') \<and> NumChunks a' = 2) \<and>
   (\<exists>a'. AllocBytes
           \<lparr>chunks = Some [\<lparr>buf = replicate 8 0, offset = 0\<rparr>, \<lparr>buf = replicate 32 0, offset = 0\<rparr>],
            chunkSize = 8\<rparr> 40 =
           Inr (Some \<lparr>r_chunk = 2, r_start = 0, r_len = 40\<rparr>, a') \<and> NumChunks a' = 3) \<and>
   (\<exists>a'. AllocBytes_cached
           \<lparr>chunks = Some [\<lparr>buf = replicate 8 0, offset = 0\<rparr>, \<lparr>buf = replicate 32 0, offset = 0\<rparr>],
            chunkSize = 8, currentChunk = Some 0\<rparr> 8 =
           Inr (Some \<lparr>r_chunk = 0, r_start = 0, r_len = 8\<rparr>, a') \<and>
         NumChunks (Arena.truncate a') = 2) \<and>
   (\<exists>a'. AllocBytes_cached
           \<lparr>chunks = Some [\<lparr>buf = replicate 8 0, offset = 0\<rparr>, \<lparr>buf = replicate 32 0, offset = 0\<rparr>],
            chunkSize = 8, currentChunk = Some 0\<rparr> 16 =
           Inr (Some \<lparr>r_chunk = 2, r_start = 0, r_len = 16\<rparr>, a') \<and>
         NumChunks (Arena.truncate a') = 3)"
proof -
  let ?a = "\<lparr>chunks = Some [\<lparr>buf = replicate 8 0, offset = 0\<rparr>, \<lparr>buf = replicate 32 0, offset = 32\<rparr>],
             chunkSize = 8\<rparr>"
  let ?z = "\<lparr>chunks = Some [\<lparr>buf = replicate 8 0, offset = 0\<rparr>, \<lparr>buf = replicate 32 0, offset = 0\<rparr>],
             chunkSize = 8\<rparr>"
  let ?c = "\<lparr>chunks = Some [\<lparr>buf = replicate 8 0, offset = 0\<rparr>, \<lparr>buf = replicate 32 0, offset = 32\<rparr>],
             chunkSize = 8, currentChunk = Some 1\<rparr>"
  let ?y = "\<lparr>chunks = Some [\<lparr>buf = replicate 8 0, offset = 0\<rparr>, \<lparr>buf = replicate 32 0, offset = 0\<rparr>],
             chunkSize = 8, currentChunk = Some 0\<rparr>"
  have e: "exec 8 [CallAllocBytes 32] = Inr ?a"
    by (simp add: exec_def NewArena_def grow_def make_bytes_def maxAlloc_def append_chunk_def
          AllocBytes_def panicIfReleased_def len_chunks_def the_chunks_def alignPtr_def carve_def
          Let_def word_sle_eq word_sless_alt)
  have h1: "arena_ok ?a"
    by (simp add: arena_ok_def the_chunks_def chunk_ok_def maxAlloc_def word_sless_alt)
  have h2: "Reset ?a = Inr ?z"
    by (simp add: Reset_def panicIfReleased_def the_chunks_def)
  have k1: "arena_ok (Arena.truncate ?c)"
    by (simp add: Arena.truncate_def arena_ok_def the_chunks_def chunk_ok_def maxAlloc_def
          word_sless_alt)
  have k2: "Reset_cached ?c = Inr ?y"
    by (simp add: Reset_cached_def Let_def)
  have p: "0 <s (8 :: go_int)" "0 <s (16 :: go_int)" "0 <s (40 :: go_int)"
    by (simp_all add: word_sless_alt)
  have q: "unat (16 :: go_int) \<le> maxAlloc" "unat (40 :: go_int) \<le> maxAlloc"
    by (simp_all add: maxAlloc_def)
  have m: "the_chunks ?z = [\<lparr>buf = replicate 8 0, offset = 0\<rparr>, \<lparr>buf = replicate 32 0, offset = 0\<rparr>]"
    "NumChunks ?z = 2"
    "the_chunks (Arena.truncate ?y) =
       [\<lparr>buf = replicate 8 0, offset = 0\<rparr>, \<lparr>buf = replicate 32 0, offset = 0\<rparr>]"
    "NumChunks (Arena.truncate ?y) = 2"
    by (simp_all add: the_chunks_def NumChunks_def Arena.truncate_def)
  have w1: "\<exists>a'. AllocBytes ?z 16 = Inr (Some \<lparr>r_chunk = 1, r_start = 0, r_len = 16\<rparr>, a') \<and>
              NumChunks a' = 2"
    using AllocBytes_after_Reset [OF p(2), of ?a ?z ?c ?y] h1 h2 by (simp add: m)
  have w2: "\<exists>a'. AllocBytes ?z 40 = Inr (Some \<lparr>r_chunk = 2, r_start = 0, r_len = 40\<rparr>, a') \<and>
              NumChunks a' = 3"
    using AllocBytes_after_Reset [OF p(3), of ?a ?z ?c ?y] h1 h2 q by (simp add: m numeral_2_eq_2 [symmetric])
  have w3: "\<exists>a'. AllocBytes_cached ?y 8 = Inr (Some \<lparr>r_chunk = 0, r_start = 0, r_len = 8\<rparr>, a') \<and>
              NumChunks (Arena.truncate a') = 2"
    using AllocBytes_after_Reset [OF p(1), of ?a ?z ?c ?y] k1 k2 by (simp add: m)
  have w4: "\<exists>a'. AllocBytes_cached ?y 16 = Inr (Some \<lparr>r_chunk = 2, r_start = 0, r_len = 16\<rparr>, a') \<and>
              NumChunks (Arena.truncate a') = 3"
    using AllocBytes_after_Reset [OF p(2), of ?a ?z ?c ?y] k1 k2 q by (simp add: m numeral_2_eq_2 [symmetric])
  from e h1 h2 k1 k2 p q w1 w2 w3 w4 show ?thesis by (intro conjI)
qed

theorem AllocBytes_after_Reset_counterexample:
  "exec 8 [CallAllocBytes 8, CallAllocBytes 8] =
     Inr \<lparr>chunks = Some [\<lparr>buf = replicate 8 0, offset = 8\<rparr>, \<lparr>buf = replicate 8 0, offset = 8\<rparr>],
          chunkSize = 8\<rparr> \<and>
   Capacity \<lparr>chunks = Some [\<lparr>buf = replicate 8 0, offset = 8\<rparr>, \<lparr>buf = replicate 8 0, offset = 8\<rparr>],
          chunkSize = 8\<rparr> = 16 \<and>
   Reset \<lparr>chunks = Some [\<lparr>buf = replicate 8 0, offset = 8\<rparr>, \<lparr>buf = replicate 8 0, offset = 8\<rparr>],
          chunkSize = 8\<rparr> =
     Inr \<lparr>chunks = Some [\<lparr>buf = replicate 8 0, offset = 0\<rparr>, \<lparr>buf = replicate 8 0, offset = 0\<rparr>],
          chunkSize = 8\<rparr> \<and>
   NumChunks \<lparr>chunks = Some [\<lparr>buf = replicate 8 0, offset = 0\<rparr>, \<lparr>buf = replicate 8 0, offset = 0\<rparr>],
          chunkSize = 8\<rparr> = 2 \<and>
   AllocBytes \<lparr>chunks = Some [\<lparr>buf = replicate 8 0, offset = 0\<rparr>, \<lparr>buf = replicate 8 0, offset = 0\<rparr>],
          chunkSize = 8\<rparr> 16 =
     Inr (Some \<lparr>r_chunk = 2, r_start = 0, r_len = 16\<rparr>,
          \<lparr>chunks = Some [\<lparr>buf = replicate 8 0, offset = 0\<rparr>, \<lparr>buf = replicate 8 0, offset = 0\<rparr>,
                          \<lparr>buf = replicate 16 0, offset = 16\<rparr>], chunkSize = 8\<rparr>) \<and>
   NumChunks \<lparr>chunks = Some [\<lparr>buf = replicate 8 0, offset = 0\<rparr>, \<lparr>buf = replicate 8 0, offset = 0\<rparr>,
                          \<lparr>buf = replicate 16 0, offset = 16\<rparr>], chunkSize = 8\<rparr> = 3 \<and>
   NewArena_cached 8 =
     Inr \<lparr>chunks = Some [\<lparr>buf = replicate 8 0, offset = 0\<rparr>], chunkSize = 8,
          currentChunk = Some 0\<rparr> \<and>
   AllocBytes_cached \<lparr>chunks = Some [\<lparr>buf = replicate 8 0, offset = 0\<rparr>], chunkSize = 8,
          currentChunk = Some 0\<rparr> 8 =
     Inr (Some \<lparr>r_chunk = 0, r_start = 0, r_len = 8\<rparr>,
          \<lparr>chunks = Some [\<lparr>buf = replicate 8 0, offset = 8\<rparr>], chunkSize = 8,
           currentChunk = Some 0\<rparr>) \<and>
   AllocBytes_cached \<lparr>chunks = Some [\<lparr>buf = replicate 8 0, offset = 8\<rparr>], chunkSize = 8,
          currentChunk = Some 0\<rparr> 8 =
     Inr (Some \<lparr>r_chunk = 1, r_start = 0, r_len = 8\<rparr>,
          \<lparr>chunks = Some [\<lparr>buf = replicate 8 0, offset = 8\<rparr>, \<lparr>buf = replicate 8 0, offset = 8\<rparr>],
           chunkSize = 8, currentChunk = Some 1\<rparr>) \<and>
   Capacity (Arena.truncate
       \<lparr>chunks = Some [\<lparr>buf = replicate 8 0, offset = 8\<rparr>, \<lparr>buf = replicate 8 0, offset = 8\<rparr>],
        chunkSize = 8, currentChunk = Some 1\<rparr>) = 16 \<and>
   Reset_cached
       \<lparr>chunks = Some [\<lparr>buf = replicate 8 0, offset = 8\<rparr>, \<lparr>buf = replicate 8 0, offset = 8\<rparr>],
        chunkSize = 8, currentChunk = Some 1\<rparr> =
     Inr \<lparr>chunks = Some [\<lparr>buf = replicate 8 0, offset = 0\<rparr>, \<lparr>buf = replicate 8 0, offset = 0\<rparr>],
          chunkSize = 8, currentChunk = Some 0\<rparr> \<and>
   AllocBytes_cached
       \<lparr>chunks = Some [\<lparr>buf = replicate 8 0, offset = 0\<rparr>, \<lparr>buf = replicate 8 0, offset = 0\<rparr>],
        chunkSize = 8, currentChunk = Some 0\<rparr> 16 =
     Inr (Some \<lparr>r_chunk = 2, r_start = 0, r_len = 16\<rparr>,
          \<lparr>chunks = Some [\<lparr>buf = replicate 8 0, offset = 0\<rparr>, \<lparr>buf = replicate 8 0, offset = 0\<rparr>,
                          \<lparr>buf = replicate 16 0, offset = 16\<rparr>],
           chunkSize = 8, currentChunk = Some 2\<rparr>) \<and>
   NumChunks (Arena.truncate
       \<lparr>chunks = Some [\<lparr>buf = replicate 8 0, offset = 0\<rparr>, \<lparr>buf = replicate 8 0, offset = 0\<rparr>,
                       \<lparr>buf = replicate 16 0, offset = 16\<rparr>],
        chunkSize = 8, currentChunk = Some 2\<rparr>) = 3"
  by (simp add: exec_def NewArena_def grow_def make_bytes_def maxAlloc_def append_chunk_def
        AllocBytes_def panicIfReleased_def len_chunks_def the_chunks_def alignPtr_def carve_def
        Reset_def Capacity_def NumChunks_def Let_def word_sle_eq word_sless_alt
        NewArena_cached_def AllocBytes_cached_def allocBytesSlow_def grow_cached_def
        carve_cached_def Reset_cached_def Arena.truncate_def word_le_nat_alt)

end
